theory Spec2Isabelle
  imports Complex_Main "HOL-Library.Sublist"
begin

section \<open>The Store (core/state.js)\<close>

text \<open>
  The store keeps one JavaScript object, \<^verbatim>\<open>state\<close>, and changes it only in
  \<^verbatim>\<open>dispatch\<close>. The object is a record here, one field per key of
  \<^verbatim>\<open>initialState\<close>. Seconds, move counts and player numbers are JavaScript
  numbers that the program only ever fills with integers; they are \<open>int\<close>. The three
  averages of the match statistics are quotients of millisecond differences; they are
  \<open>rat\<close>. \<^verbatim>\<open>null\<close> is \<open>None\<close>.
\<close>

datatype profile = Profile int string

record move =
  mv_player :: int
  mv_time :: rat
  mv_timeRemaining :: "int option"
  mv_timestamp :: int

record match_stats =
  startTime :: "int option"
  moves :: "move list"
  avgMoveTime :: rat
  longestThink :: rat
  fastestMove :: rat

record state =
  player1Time :: int
  player2Time :: int
  player1Moves :: int
  player2Moves :: int
  activePlayer :: int
  isPaused :: bool
  defaultTime :: int
  selectedPlayer1 :: "profile option"
  selectedPlayer2 :: "profile option"
  ambientMode :: string
  audioEnabled :: bool
  particlesEnabled :: bool
  endgameBoostEnabled :: bool
  player1Palette :: string
  player2Palette :: string
  currentMatchStats :: match_stats
  unlockedAchievements :: "string list"
  totalXP :: int
  level :: int

definition emptyMatchStats :: match_stats where
  "emptyMatchStats =
     \<lparr>startTime = None, moves = [], avgMoveTime = 0, longestThink = 0, fastestMove = 0\<rparr>"

definition initialState :: state where
  "initialState =
     \<lparr>player1Time = 300, player2Time = 300, player1Moves = 0, player2Moves = 0,
      activePlayer = 0, isPaused = True, defaultTime = 300,
      selectedPlayer1 = None, selectedPlayer2 = None,
      ambientMode = ''classic'', audioEnabled = True, particlesEnabled = True,
      endgameBoostEnabled = True, player1Palette = ''royal'', player2Palette = ''royal'',
      currentMatchStats = emptyMatchStats,
      unlockedAchievements = [], totalXP = 0, level = 1\<rparr>"

text \<open>
  The payload of \<^verbatim>\<open>UPDATE_SETTING\<close> names any key and carries any value. The model
  admits each own key of the state with a value of that field's type, and every other key
  as \<open>NoSuchKey\<close>, for which \<^verbatim>\<open>state.hasOwnProperty\<close> is false.
\<close>

datatype setting =
    Key_player1Time int
  | Key_player2Time int
  | Key_player1Moves int
  | Key_player2Moves int
  | Key_activePlayer int
  | Key_isPaused bool
  | Key_defaultTime int
  | Key_selectedPlayer1 "profile option"
  | Key_selectedPlayer2 "profile option"
  | Key_ambientMode string
  | Key_audioEnabled bool
  | Key_particlesEnabled bool
  | Key_endgameBoostEnabled bool
  | Key_player1Palette string
  | Key_player2Palette string
  | Key_currentMatchStats match_stats
  | Key_unlockedAchievements "string list"
  | Key_totalXP int
  | Key_level int
  | NoSuchKey string

text \<open>
  The payload of \<^verbatim>\<open>UPDATE_MATCH_STATS\<close> is spread over the current statistics: a key
  the payload has replaces the field, a key it lacks leaves the field as it is.
\<close>

record stats_patch =
  patch_startTime :: "int option option"
  patch_moves :: "move list option"
  patch_avgMoveTime :: "rat option"
  patch_longestThink :: "rat option"
  patch_fastestMove :: "rat option"

definition spread :: "match_stats \<Rightarrow> stats_patch \<Rightarrow> match_stats" where
  "spread m p =
     \<lparr>startTime = (case patch_startTime p of None \<Rightarrow> startTime m | Some v \<Rightarrow> v),
      moves = (case patch_moves p of None \<Rightarrow> moves m | Some v \<Rightarrow> v),
      avgMoveTime = (case patch_avgMoveTime p of None \<Rightarrow> avgMoveTime m | Some v \<Rightarrow> v),
      longestThink = (case patch_longestThink p of None \<Rightarrow> longestThink m | Some v \<Rightarrow> v),
      fastestMove = (case patch_fastestMove p of None \<Rightarrow> fastestMove m | Some v \<Rightarrow> v)\<rparr>"

datatype action =
    SET_TIME int int
  | DECREMENT_TIME int
  | SET_ACTIVE_PLAYER int
  | INCREMENT_MOVES int
  | TOGGLE_PAUSE
  | SET_PAUSE bool
  | RESET_GAME
  | SELECT_PLAYER int "profile option"
  | UPDATE_SETTING setting
  | ADD_ACHIEVEMENT string
  | ADD_XP int
  | UPDATE_MATCH_STATS stats_patch
  | SET_DEFAULT_TIME int
  | UnknownAction string

fun update_setting :: "setting \<Rightarrow> state \<Rightarrow> state" where
  "update_setting (Key_player1Time v) s = s\<lparr>player1Time := v\<rparr>"
| "update_setting (Key_player2Time v) s = s\<lparr>player2Time := v\<rparr>"
| "update_setting (Key_player1Moves v) s = s\<lparr>player1Moves := v\<rparr>"
| "update_setting (Key_player2Moves v) s = s\<lparr>player2Moves := v\<rparr>"
| "update_setting (Key_activePlayer v) s = s\<lparr>activePlayer := v\<rparr>"
| "update_setting (Key_isPaused v) s = s\<lparr>isPaused := v\<rparr>"
| "update_setting (Key_defaultTime v) s = s\<lparr>defaultTime := v\<rparr>"
| "update_setting (Key_selectedPlayer1 v) s = s\<lparr>selectedPlayer1 := v\<rparr>"
| "update_setting (Key_selectedPlayer2 v) s = s\<lparr>selectedPlayer2 := v\<rparr>"
| "update_setting (Key_ambientMode v) s = s\<lparr>ambientMode := v\<rparr>"
| "update_setting (Key_audioEnabled v) s = s\<lparr>audioEnabled := v\<rparr>"
| "update_setting (Key_particlesEnabled v) s = s\<lparr>particlesEnabled := v\<rparr>"
| "update_setting (Key_endgameBoostEnabled v) s = s\<lparr>endgameBoostEnabled := v\<rparr>"
| "update_setting (Key_player1Palette v) s = s\<lparr>player1Palette := v\<rparr>"
| "update_setting (Key_player2Palette v) s = s\<lparr>player2Palette := v\<rparr>"
| "update_setting (Key_currentMatchStats v) s = s\<lparr>currentMatchStats := v\<rparr>"
| "update_setting (Key_unlockedAchievements v) s = s\<lparr>unlockedAchievements := v\<rparr>"
| "update_setting (Key_totalXP v) s = s\<lparr>totalXP := v\<rparr>"
| "update_setting (Key_level v) s = s\<lparr>level := v\<rparr>"
| "update_setting (NoSuchKey k) s = s"

text \<open>
  \<^verbatim>\<open>dispatch(action, payload)\<close>: the new value of \<^verbatim>\<open>state\<close>. Every case assigns
  all its fields before its first \<^verbatim>\<open>notify\<close>, so the values a subscriber is handed are
  those of the state returned here.
\<close>

fun dispatch :: "action \<Rightarrow> state \<Rightarrow> state" where
  "dispatch (SET_TIME player t) s =
     (if player = 1 then s\<lparr>player1Time := t\<rparr>
      else if player = 2 then s\<lparr>player2Time := t\<rparr>
      else s)"
| "dispatch (DECREMENT_TIME player) s =
     (if player = 1 \<and> player1Time s > 0 then s\<lparr>player1Time := player1Time s - 1\<rparr>
      else if player = 2 \<and> player2Time s > 0 then s\<lparr>player2Time := player2Time s - 1\<rparr>
      else s)"
| "dispatch (SET_ACTIVE_PLAYER player) s = s\<lparr>activePlayer := player\<rparr>"
| "dispatch (INCREMENT_MOVES player) s =
     (if player = 1 then s\<lparr>player1Moves := player1Moves s + 1\<rparr>
      else if player = 2 then s\<lparr>player2Moves := player2Moves s + 1\<rparr>
      else s)"
| "dispatch TOGGLE_PAUSE s = s\<lparr>isPaused := \<not> isPaused s\<rparr>"
| "dispatch (SET_PAUSE paused) s = s\<lparr>isPaused := paused\<rparr>"
| "dispatch RESET_GAME s =
     s\<lparr>player1Time := defaultTime s, player2Time := defaultTime s,
       player1Moves := 0, player2Moves := 0, activePlayer := 0, isPaused := True,
       currentMatchStats := emptyMatchStats\<rparr>"
| "dispatch (SELECT_PLAYER playerNum prof) s =
     (if playerNum = 1 then s\<lparr>selectedPlayer1 := prof\<rparr>
      else if playerNum = 2 then s\<lparr>selectedPlayer2 := prof\<rparr>
      else s)"
| "dispatch (UPDATE_SETTING kv) s = update_setting kv s"
| "dispatch (ADD_ACHIEVEMENT achievementId) s =
     (if achievementId \<notin> set (unlockedAchievements s)
      then s\<lparr>unlockedAchievements := unlockedAchievements s @ [achievementId]\<rparr>
      else s)"
| "dispatch (ADD_XP amount) s =
     (let s1 = s\<lparr>totalXP := totalXP s + amount\<rparr>;
          newLevel = totalXP s1 div 100 + 1
      in if newLevel > level s1 then s1\<lparr>level := newLevel\<rparr> else s1)"
| "dispatch (UPDATE_MATCH_STATS p) s = s\<lparr>currentMatchStats := spread (currentMatchStats s) p\<rparr>"
| "dispatch (SET_DEFAULT_TIME t) s = s\<lparr>defaultTime := t\<rparr>"
| "dispatch (UnknownAction a) s = s"

text \<open>The states a subscriber sees while a list of commands is dispatched, in order.\<close>

fun observed :: "action list \<Rightarrow> state \<Rightarrow> state list" where
  "observed [] s = []"
| "observed (a # as) s = dispatch a s # observed as (dispatch a s)"

definition times_nonneg :: "state \<Rightarrow> bool" where
  "times_nonneg s \<longleftrightarrow> 0 \<le> player1Time s \<and> 0 \<le> player2Time s"

text \<open>
  The store checks no payload. A command writes a number of seconds in four places; the
  predicate holds of a command that writes none or writes one that is not negative.
\<close>

fun seconds_nonneg :: "action \<Rightarrow> bool" where
  "seconds_nonneg (SET_TIME player t) = (0 \<le> t)"
| "seconds_nonneg (SET_DEFAULT_TIME t) = (0 \<le> t)"
| "seconds_nonneg (UPDATE_SETTING (Key_player1Time t)) = (0 \<le> t)"
| "seconds_nonneg (UPDATE_SETTING (Key_player2Time t)) = (0 \<le> t)"
| "seconds_nonneg (UPDATE_SETTING (Key_defaultTime t)) = (0 \<le> t)"
| "seconds_nonneg a = True"


section \<open>Shared constants (core/config.js) and the rules (modules/game/rules.js)\<close>

definition LOW_TIME_THRESHOLD :: int where
  "LOW_TIME_THRESHOLD = 60"

definition CRITICAL_THRESHOLD :: int where
  "CRITICAL_THRESHOLD = 10"

definition canPlayerSwitch :: "int \<Rightarrow> int \<Rightarrow> bool" where
  "canPlayerSwitch player ap = (if ap = 0 then True else ap = player)"

text \<open>\<^verbatim>\<open>typeof time === 'number'\<close> holds of every \<open>int\<close>.\<close>

definition isValidTime :: "int \<Rightarrow> bool" where
  "isValidTime t \<longleftrightarrow> t > 0 \<and> t < 86400"

section \<open>The engine (modules/game/engine.js) and the statistics listener
  (modules/gamification/stats.js)\<close>

text \<open>
  The world is the store together with the module variables of the engine
  (\<^verbatim>\<open>timerInterval\<close>, \<^verbatim>\<open>thresholdFlags\<close>) and of the statistics module
  (\<^verbatim>\<open>matchStartTime\<close>, \<^verbatim>\<open>lastMoveTime\<close>), after both modules have run their
  \<^verbatim>\<open>init\<close>. \<open>timerInterval\<close> is \<open>True\<close> while the variable holds an interval
  handle and \<open>False\<close> while it is \<^verbatim>\<open>null\<close>. \<open>dateNow\<close> is what
  \<^verbatim>\<open>Date.now()\<close> returns, in milliseconds.

  Three fields record what the program does to its surroundings, in order:
  \<open>observedStates\<close> has the store's state after each \<^verbatim>\<open>dispatch\<close>,
  \<open>emitted\<close> has each event handed to the event bus, and \<open>uncaught\<close> has each
  exception that left a handler.
\<close>

datatype event =
    GameResumed
  | GamePaused
  | GameStarted int
  | PlayerSwitched int int "int option"
  | GameTick int int
  | LowTime int int
  | CriticalTime int int
  | Victory int int "int option"
  | GameReset
  | StatsUpdated match_stats

text \<open>
  The arguments are the payload's fields in the order the source writes them:
  \<open>GameStarted player\<close>, \<open>PlayerSwitched from to moveNumber\<close>,
  \<open>GameTick player timeRemaining\<close>, \<open>LowTime player timeRemaining\<close>,
  \<open>CriticalTime player timeRemaining\<close>, \<open>Victory winner loser winnerTimeRemaining\<close>.
  A \<open>moveNumber\<close> of \<open>None\<close> is \<^verbatim>\<open>NaN\<close>.
\<close>

datatype error = TypeError

record flags =
  low :: bool
  critical :: bool

record world =
  store :: state
  timerInterval :: bool
  thresholdFlags_player1 :: flags
  thresholdFlags_player2 :: flags
  matchStartTime :: "int option"
  lastMoveTime :: "int option"
  dateNow :: int
  observedStates :: "state list"
  emitted :: "event list"
  uncaught :: "error list"

definition noFlags :: flags where
  "noFlags = \<lparr>low = False, critical = False\<rparr>"

definition initialWorld :: world where
  "initialWorld =
     \<lparr>store = initialState, timerInterval = False,
      thresholdFlags_player1 = noFlags, thresholdFlags_player2 = noFlags,
      matchStartTime = None, lastMoveTime = None, dateNow = 0,
      observedStates = [], emitted = [], uncaught = []\<rparr>"

definition store_dispatch :: "action \<Rightarrow> world \<Rightarrow> world" where
  "store_dispatch a w =
     w\<lparr>store := dispatch a (store w),
       observedStates := observedStates w @ [dispatch a (store w)]\<rparr>"

text \<open>\<^verbatim>\<open>get(`player${p}Time`)\<close> and \<^verbatim>\<open>get(`player${p}Moves`)\<close>: \<^verbatim>\<open>undefined\<close> for a
  key the state does not have.\<close>

definition get_playerTime :: "int \<Rightarrow> state \<Rightarrow> int option" where
  "get_playerTime p s =
     (if p = 1 then Some (player1Time s) else if p = 2 then Some (player2Time s) else None)"

definition get_playerMoves :: "int \<Rightarrow> state \<Rightarrow> int option" where
  "get_playerMoves p s =
     (if p = 1 then Some (player1Moves s) else if p = 2 then Some (player2Moves s) else None)"

subsection \<open>stats.js\<close>

text \<open>
  \<^verbatim>\<open>reduce((sum, m) => sum + m.time, 0)\<close>, \<^verbatim>\<open>Math.max(...xs)\<close> and
  \<^verbatim>\<open>Math.min(...xs)\<close>; the last two are only called on a list that is not empty.
\<close>

definition sum_times :: "move list \<Rightarrow> rat" where
  "sum_times ms = foldl (\<lambda>sum m. sum + mv_time m) 0 ms"

definition maximum :: "rat list \<Rightarrow> rat" where
  "maximum xs = foldl max (hd xs) (tl xs)"

definition minimum :: "rat list \<Rightarrow> rat" where
  "minimum xs = foldl min (hd xs) (tl xs)"

definition startMatch :: "world \<Rightarrow> world" where
  "startMatch w =
     (let w1 = w\<lparr>matchStartTime := Some (dateNow w), lastMoveTime := Some (dateNow w)\<rparr>
      in store_dispatch
           (UPDATE_MATCH_STATS
              \<lparr>patch_startTime = Some (matchStartTime w1), patch_moves = Some [],
               patch_avgMoveTime = Some 0, patch_longestThink = Some 0,
               patch_fastestMove = Some 0\<rparr>) w1)"

text \<open>In \<^verbatim>\<open>moveTime - lastMoveTime\<close> a \<^verbatim>\<open>null\<close> counts as 0.\<close>

definition recordMove :: "int \<Rightarrow> int option \<Rightarrow> world \<Rightarrow> world" where
  "recordMove player timeRemaining w =
     (let moveTime = dateNow w;
          timeTaken = of_int (moveTime - (case lastMoveTime w of None \<Rightarrow> 0 | Some t \<Rightarrow> t)) / 1000;
          w1 = w\<lparr>lastMoveTime := Some moveTime\<rparr>;
          currentStats = currentMatchStats (store w1);
          moves' = moves currentStats @
            [\<lparr>mv_player = player, mv_time = timeTaken, mv_timeRemaining = timeRemaining,
              mv_timestamp = moveTime\<rparr>];
          validMoves = filter (\<lambda>m. mv_time m > 0) (drop 1 moves');
          avg = (if length validMoves > 0
                 then sum_times validMoves / of_nat (length validMoves) else 0);
          longest = (if length validMoves > 0 then maximum (map mv_time validMoves) else 0);
          fastest = (if length validMoves > 0 then minimum (map mv_time validMoves) else 0)
      in store_dispatch
           (UPDATE_MATCH_STATS
              \<lparr>patch_startTime = None, patch_moves = Some moves',
               patch_avgMoveTime = Some avg, patch_longestThink = Some longest,
               patch_fastestMove = Some fastest\<rparr>) w1)"

definition stats_handlePlayerSwitch :: "int \<Rightarrow> world \<Rightarrow> world" where
  "stats_handlePlayerSwitch from w = recordMove from (get_playerTime from (store w)) w"

text \<open>
  \<^verbatim>\<open>handleVictory\<close> of stats.js emits the statistics and then writes the players'
  all-time figures to \<^verbatim>\<open>localStorage\<close>, which is outside the world.
\<close>

definition stats_handleVictory :: "world \<Rightarrow> world" where
  "stats_handleVictory w = w\<lparr>emitted := emitted w @ [StatsUpdated (currentMatchStats (store w))]\<rparr>"

subsection \<open>The event bus as the engine uses it\<close>

text \<open>
  \<^verbatim>\<open>emit\<close> with the listeners that stats.js registers: \<^verbatim>\<open>startMatch\<close> on
  \<^verbatim>\<open>game:started\<close>, \<^verbatim>\<open>handlePlayerSwitch\<close> on \<^verbatim>\<open>game:player-switched\<close>,
  \<^verbatim>\<open>handleVictory\<close> on \<^verbatim>\<open>game:victory\<close>. Every event is recorded in
  \<open>emitted\<close>, whose readers are the other listeners: those of the renderer, the user
  interface, the sound and the particles, which do not dispatch, and that of
  achievements.js, which on \<^verbatim>\<open>game:victory\<close> dispatches \<^verbatim>\<open>ADD_ACHIEVEMENT\<close> and
  \<^verbatim>\<open>ADD_XP\<close> from figures kept in \<^verbatim>\<open>localStorage\<close>. Those two commands write
  \<^verbatim>\<open>unlockedAchievements\<close>, \<^verbatim>\<open>totalXP\<close> and \<^verbatim>\<open>level\<close> only; they are not part
  of the world.
\<close>

fun emit_event :: "event \<Rightarrow> world \<Rightarrow> world" where
  "emit_event (GameStarted player) w =
     startMatch (w\<lparr>emitted := emitted w @ [GameStarted player]\<rparr>)"
| "emit_event (PlayerSwitched from to moveNumber) w =
     stats_handlePlayerSwitch from (w\<lparr>emitted := emitted w @ [PlayerSwitched from to moveNumber]\<rparr>)"
| "emit_event (Victory winner loser winnerTimeRemaining) w =
     stats_handleVictory (w\<lparr>emitted := emitted w @ [Victory winner loser winnerTimeRemaining]\<rparr>)"
| "emit_event ev w = w\<lparr>emitted := emitted w @ [ev]\<rparr>"

subsection \<open>engine.js\<close>

definition startTimer :: "world \<Rightarrow> world" where
  "startTimer w = (if timerInterval w then w else w\<lparr>timerInterval := True\<rparr>)"

definition stopTimer :: "world \<Rightarrow> world" where
  "stopTimer w = (if timerInterval w then w\<lparr>timerInterval := False\<rparr> else w)"

definition handleStart :: "world \<Rightarrow> world" where
  "handleStart w =
     (let ap = activePlayer (store w); paused = isPaused (store w)
      in if ap \<noteq> 0 \<and> paused
         then emit_event GameResumed (startTimer (store_dispatch (SET_PAUSE False) w))
         else w)"

definition handlePause :: "world \<Rightarrow> world" where
  "handlePause w =
     (let paused = isPaused (store w); ap = activePlayer (store w)
      in if ap = 0 then w
         else if paused
         then emit_event GameResumed (startTimer (store_dispatch (SET_PAUSE False) w))
         else emit_event GamePaused (stopTimer (store_dispatch (SET_PAUSE True) w)))"

definition handlePlayerClick :: "int \<Rightarrow> world \<Rightarrow> world" where
  "handlePlayerClick player w =
     (let ap = activePlayer (store w); paused = isPaused (store w)
      in if \<not> canPlayerSwitch player ap then w
         else if paused \<and> ap \<noteq> 0 then w
         else if ap = 0
         then emit_event (GameStarted player)
                (startTimer
                  (store_dispatch (SET_PAUSE False)
                    (store_dispatch (SET_ACTIVE_PLAYER player) w)))
         else
           (let newPlayer = (if player = 1 then 2 else 1);
                moveNumber = map_option (\<lambda>n. n + 1) (get_playerMoves player (store w));
                w1 = store_dispatch (INCREMENT_MOVES player) w;
                w2 = store_dispatch (SET_ACTIVE_PLAYER newPlayer) w1
            in emit_event (PlayerSwitched player newPlayer moveNumber) w2))"

definition setTime :: "int \<Rightarrow> world \<Rightarrow> world" where
  "setTime seconds w =
     (let w1 = store_dispatch (SET_DEFAULT_TIME seconds) w;
          w2 = store_dispatch (SET_TIME 1 seconds) w1;
          w3 = store_dispatch (SET_TIME 2 seconds) w2
      in w3\<lparr>thresholdFlags_player1 := noFlags, thresholdFlags_player2 := noFlags\<rparr>)"

definition handleTimeSelected :: "int \<Rightarrow> world \<Rightarrow> world" where
  "handleTimeSelected seconds w = (if \<not> isValidTime seconds then w else setTime seconds w)"

text \<open>
  \<^verbatim>\<open>thresholdFlags[`player${player}`]\<close> is \<^verbatim>\<open>undefined\<close> for a player other than 1
  and 2, and reading \<^verbatim>\<open>.low\<close> or \<^verbatim>\<open>.critical\<close> of it throws. The read is the
  second operand of \<^verbatim>\<open>&&\<close>, so it happens only when the time equals the threshold.
\<close>

definition flags_of :: "int \<Rightarrow> world \<Rightarrow> flags option" where
  "flags_of player w =
     (if player = 1 then Some (thresholdFlags_player1 w)
      else if player = 2 then Some (thresholdFlags_player2 w)
      else None)"

definition set_flags :: "int \<Rightarrow> flags \<Rightarrow> world \<Rightarrow> world" where
  "set_flags player f w =
     (if player = 1 then w\<lparr>thresholdFlags_player1 := f\<rparr>
      else if player = 2 then w\<lparr>thresholdFlags_player2 := f\<rparr>
      else w)"

definition checkLow :: "int \<Rightarrow> int \<Rightarrow> world \<Rightarrow> error + world" where
  "checkLow player timeRemaining w =
     (if timeRemaining = LOW_TIME_THRESHOLD
      then (case flags_of player w of
              None \<Rightarrow> Inl TypeError
            | Some f \<Rightarrow>
                if \<not> low f
                then Inr (emit_event (LowTime player timeRemaining)
                            (set_flags player (f\<lparr>low := True\<rparr>) w))
                else Inr w)
      else Inr w)"

definition checkCritical :: "int \<Rightarrow> int \<Rightarrow> world \<Rightarrow> error + world" where
  "checkCritical player timeRemaining w =
     (if timeRemaining = CRITICAL_THRESHOLD
      then (case flags_of player w of
              None \<Rightarrow> Inl TypeError
            | Some f \<Rightarrow>
                if \<not> critical f
                then Inr (emit_event (CriticalTime player timeRemaining)
                            (set_flags player (f\<lparr>critical := True\<rparr>) w))
                else Inr w)
      else Inr w)"

text \<open>
  The two \<^verbatim>\<open>if\<close> statements of \<^verbatim>\<open>checkTimeThresholds\<close>, one after the other. A
  throw happens before the function has changed anything: a statement reads the flags
  before it writes, and once the first statement has found them the second finds them too.
\<close>

definition checkTimeThresholds :: "int \<Rightarrow> int \<Rightarrow> world \<Rightarrow> error + world" where
  "checkTimeThresholds player timeRemaining w =
     (case checkLow player timeRemaining w of
        Inl e \<Rightarrow> Inl e
      | Inr w1 \<Rightarrow> checkCritical player timeRemaining w1)"

definition handleVictory :: "int \<Rightarrow> world \<Rightarrow> world" where
  "handleVictory winner w =
     (let w1 = stopTimer w;
          loser = (if winner = 1 then 2 else 1);
          winnerTimeRemaining = get_playerTime winner (store w1);
          w2 = store_dispatch (SET_PAUSE True) w1;
          w3 = store_dispatch (SET_ACTIVE_PLAYER 0) w2
      in emit_event (Victory winner loser winnerTimeRemaining) w3)"


text \<open>
  \<^verbatim>\<open>tick\<close> is the callback of \<^verbatim>\<open>setInterval\<close>. An exception of
  \<^verbatim>\<open>checkTimeThresholds\<close> leaves it before the win condition is looked at.
\<close>

definition tick :: "world \<Rightarrow> world" where
  "tick w =
     (let ap = activePlayer (store w); paused = isPaused (store w)
      in if ap = 0 \<or> paused then w
         else
           (let w1 = store_dispatch (DECREMENT_TIME ap) w;
                timeRemaining = (if ap = 1 then player1Time (store w1) else player2Time (store w1));
                w2 = emit_event (GameTick ap timeRemaining) w1
            in case checkTimeThresholds ap timeRemaining w2 of
                 Inl e \<Rightarrow> w2\<lparr>uncaught := uncaught w2 @ [e]\<rparr>
               | Inr w3 \<Rightarrow>
                   if timeRemaining \<le> 0
                   then handleVictory (if ap = 1 then 2 else 1) w3
                   else w3))"

definition resetGame :: "world \<Rightarrow> world" where
  "resetGame w =
     (let w1 = stopTimer w;
          w2 = store_dispatch RESET_GAME w1;
          w3 = w2\<lparr>thresholdFlags_player1 := noFlags, thresholdFlags_player2 := noFlags\<rparr>
      in emit_event GameReset w3)"

text \<open>
  What reaches the engine from outside: the five events of the user interface that
  \<^verbatim>\<open>setupEventListeners\<close> subscribes to, and the interval timer, which calls
  \<^verbatim>\<open>tick\<close> only while \<^verbatim>\<open>timerInterval\<close> holds a handle. Each input comes with the
  reading of the wall clock at that moment.
\<close>

datatype ui_event =
    StartClicked
  | PauseClicked
  | ResetClicked
  | PlayerClicked int
  | TimeSelected int
  | TimerFired

fun handle :: "ui_event \<Rightarrow> world \<Rightarrow> world" where
  "handle StartClicked w = handleStart w"
| "handle PauseClicked w = handlePause w"
| "handle ResetClicked w = resetGame w"
| "handle (PlayerClicked player) w = handlePlayerClick player w"
| "handle (TimeSelected seconds) w = handleTimeSelected seconds w"
| "handle TimerFired w = (if timerInterval w then tick w else w)"

definition step :: "int \<times> ui_event \<Rightarrow> world \<Rightarrow> world" where
  "step i w = handle (snd i) (w\<lparr>dateNow := fst i\<rparr>)"

fun run :: "(int \<times> ui_event) list \<Rightarrow> world \<Rightarrow> world" where
  "run [] w = w"
| "run (i # is) w = run is (step i w)"


section \<open>The event bus (core/events.js) and the store's subscribers, with any callbacks\<close>

text \<open>
  A callback is a JavaScript function: it may return or throw, and on the way it may do
  anything to the variables it can reach, the two tables of registered callbacks
  included. The hub holds those variables. A function value is compared by identity, so a
  registered callback is a name: \<open>Callback c\<close> for the function numbered \<open>c\<close>, and
  \<open>OnceWrapper k name c\<close> for the closure that the \<open>k\<close>-th call of \<^verbatim>\<open>once\<close> built
  around \<open>c\<close> for the event \<open>name\<close>. What a function does when it is called is
  given apart, by a behaviour: from the function's number, its arguments and the hub to how
  the call ends and the hub it leaves.

  \<open>calls\<close> records every call of a callback, with its arguments, when it happens.
\<close>

datatype outcome = Returned | Threw

datatype listener = Callback nat | OnceWrapper nat string nat

datatype console_line =
    DebugEmit string
  | DebugListening string
  | DebugStopped string
  | DebugRemovedAll string
  | ListenerError string
  | SubscriberError string
  | WarnUnknownAction string

record ('d, 'c) hub =
  listeners :: "string \<Rightarrow> listener list option"
  debugMode :: bool
  subscribers :: "string \<Rightarrow> listener list option"
  console :: "console_line list"
  closures :: nat
  calls :: "(listener \<times> 'd list) list"
  client :: 'c

type_synonym ('d, 'c) behaviour = "nat \<Rightarrow> 'd list \<Rightarrow> ('d, 'c) hub \<Rightarrow> outcome \<times> ('d, 'c) hub"

definition emptyHub :: "'c \<Rightarrow> ('d, 'c) hub" where
  "emptyHub c =
     \<lparr>listeners = (\<lambda>name. None), debugMode = False, subscribers = (\<lambda>key. None),
      console = [], closures = 0, calls = [], client = c\<rparr>"

definition console_log :: "console_line \<Rightarrow> ('d, 'c) hub \<Rightarrow> ('d, 'c) hub" where
  "console_log line h = h\<lparr>console := console h @ [line]\<rparr>"

definition on :: "string \<Rightarrow> listener \<Rightarrow> ('d, 'c) hub \<Rightarrow> ('d, 'c) hub" where
  "on eventName callback h =
     (let registered = (case listeners h eventName of None \<Rightarrow> [] | Some ls \<Rightarrow> ls);
          h1 = h\<lparr>listeners := (listeners h)(eventName \<mapsto> registered @ [callback])\<rparr>
      in if debugMode h1 then console_log (DebugListening eventName) h1 else h1)"

definition off :: "string \<Rightarrow> listener \<Rightarrow> ('d, 'c) hub \<Rightarrow> ('d, 'c) hub" where
  "off eventName callback h =
     (case listeners h eventName of
        None \<Rightarrow> h
      | Some ls \<Rightarrow>
          (let h1 = h\<lparr>listeners := (listeners h)(eventName \<mapsto> filter (\<lambda>cb. cb \<noteq> callback) ls)\<rparr>
           in if debugMode h1 then console_log (DebugStopped eventName) h1 else h1))"

definition offAll :: "string \<Rightarrow> ('d, 'c) hub \<Rightarrow> ('d, 'c) hub" where
  "offAll eventName h =
     (case listeners h eventName of
        None \<Rightarrow> h
      | Some ls \<Rightarrow>
          (let h1 = h\<lparr>listeners := (listeners h)(eventName := None)\<rparr>
           in if debugMode h1 then console_log (DebugRemovedAll eventName) h1 else h1))"

definition once :: "string \<Rightarrow> nat \<Rightarrow> ('d, 'c) hub \<Rightarrow> ('d, 'c) hub" where
  "once eventName callback h =
     on eventName (OnceWrapper (closures h) eventName callback) (h\<lparr>closures := Suc (closures h)\<rparr>)"


definition unsubscribe :: "string \<Rightarrow> listener \<Rightarrow> ('d, 'c) hub \<Rightarrow> ('d, 'c) hub" where
  "unsubscribe key callback h =
     (case subscribers h key of
        None \<Rightarrow> h
      | Some cbs \<Rightarrow> h\<lparr>subscribers := (subscribers h)(key \<mapsto> filter (\<lambda>cb. cb \<noteq> callback) cbs)\<rparr>)"

text \<open>
  Calling a registered function. The wrapper of \<^verbatim>\<open>once\<close> takes one parameter and
  hands it to its callback; when the callback has returned it removes itself, and when the
  callback throws the exception leaves the wrapper before the removal.
\<close>

definition call_function :: "('d, 'c) behaviour \<Rightarrow> nat \<Rightarrow> 'd list \<Rightarrow> ('d, 'c) hub \<Rightarrow> outcome \<times> ('d, 'c) hub" where
  "call_function beh c args h = beh c args (h\<lparr>calls := calls h @ [(Callback c, args)]\<rparr>)"

fun call :: "('d, 'c) behaviour \<Rightarrow> listener \<Rightarrow> 'd list \<Rightarrow> ('d, 'c) hub \<Rightarrow> outcome \<times> ('d, 'c) hub" where
  "call beh (Callback c) args h = call_function beh c args h"
| "call beh (OnceWrapper k eventName c) args h =
     (case call_function beh c (take 1 args)
             (h\<lparr>calls := calls h @ [(OnceWrapper k eventName c, args)]\<rparr>) of
        (Threw, h1) \<Rightarrow> (Threw, h1)
      | (Returned, h1) \<Rightarrow> (Returned, off eventName (OnceWrapper k eventName c) h1))"

text \<open>
  \<^verbatim>\<open>try { ... } catch (error) { ... }\<close> and \<^verbatim>\<open>Array.prototype.forEach\<close>. The loop
  runs over the array it was called on: \<^verbatim>\<open>off\<close> and \<^verbatim>\<open>unsubscribe\<close> put a new,
  filtered array into the table and leave that one alone, and an element pushed onto it
  during the loop is not visited. An exception of the loop's function ends the loop.
\<close>

definition try_catch :: "('s \<Rightarrow> outcome \<times> 's) \<Rightarrow> ('s \<Rightarrow> 's) \<Rightarrow> 's \<Rightarrow> outcome \<times> 's" where
  "try_catch body handler s =
     (case body s of (Returned, s1) \<Rightarrow> (Returned, s1) | (Threw, s1) \<Rightarrow> (Returned, handler s1))"

fun forEach :: "('a \<Rightarrow> 's \<Rightarrow> outcome \<times> 's) \<Rightarrow> 'a list \<Rightarrow> 's \<Rightarrow> outcome \<times> 's" where
  "forEach f [] s = (Returned, s)"
| "forEach f (x # xs) s =
     (case f x s of (Returned, s1) \<Rightarrow> forEach f xs s1 | (Threw, s1) \<Rightarrow> (Threw, s1))"

definition emit :: "('d, 'c) behaviour \<Rightarrow> string \<Rightarrow> 'd \<Rightarrow> ('d, 'c) hub \<Rightarrow> outcome \<times> ('d, 'c) hub" where
  "emit beh eventName data h =
     (let h1 = (if debugMode h then console_log (DebugEmit eventName) h else h)
      in case listeners h1 eventName of
           None \<Rightarrow> (Returned, h1)
         | Some ls \<Rightarrow>
             forEach (\<lambda>callback. try_catch (call beh callback [data])
                                  (console_log (ListenerError eventName))) ls h1)"







section \<open>Vocabulary of the properties\<close>

definition seconds_inv :: "state \<Rightarrow> bool" where
  "seconds_inv s \<longleftrightarrow> times_nonneg s \<and> 0 \<le> defaultTime s"

definition running :: "world \<Rightarrow> bool" where
  "running w \<longleftrightarrow> \<not> isPaused (store w) \<and> timerInterval w"

fun is_victory :: "event \<Rightarrow> bool" where
  "is_victory (Victory winner loser t) = True"
| "is_victory ev = False"

fun is_switch :: "event \<Rightarrow> bool" where
  "is_switch (PlayerSwitched from to n) = True"
| "is_switch ev = False"

text \<open>
  \<open>match_of seconds n\<close>: both clocks are seeded with \<open>seconds\<close>, player 1 starts, and
  the interval timer fires \<open>n\<close> times, once a second.
\<close>

definition ticks :: "nat \<Rightarrow> (int \<times> ui_event) list" where
  "ticks n = map (\<lambda>k. (1000 * int k, TimerFired)) [1..<Suc n]"

definition match_of :: "int \<Rightarrow> nat \<Rightarrow> (int \<times> ui_event) list" where
  "match_of seconds n = [(0, TimeSelected seconds), (0, PlayerClicked 1)] @ ticks n"

text \<open>\<^verbatim>\<open>isValidPlayer\<close> of rules.js; the user interface only sends clicks of players 1 and 2.\<close>

definition isValidPlayer :: "int \<Rightarrow> bool" where
  "isValidPlayer player \<longleftrightarrow> player = 1 \<or> player = 2"

fun valid_input :: "int \<times> ui_event \<Rightarrow> bool" where
  "valid_input (t, PlayerClicked player) = isValidPlayer player"
| "valid_input (t, e) = True"

text \<open>The equivalence of claim C2, and the half of it that the engine keeps.\<close>

definition owner_iff_idle :: "world \<Rightarrow> bool" where
  "owner_iff_idle w \<longleftrightarrow> (activePlayer (store w) = 0) = (\<not> running w)"

definition unowned_paused :: "state \<Rightarrow> bool" where
  "unowned_paused s \<longleftrightarrow> activePlayer s \<noteq> 0 \<or> isPaused s"

definition engine_inv :: "world \<Rightarrow> bool" where
  "engine_inv w \<longleftrightarrow>
     unowned_paused (store w) \<and> list_all unowned_paused (observedStates w)
     \<and> timerInterval w = (\<not> isPaused (store w))"

text \<open>
  The threshold events sent to a player, counted in the order of emission, and the inputs
  after which the engine clears its threshold flags.
\<close>

fun is_low_time :: "int \<Rightarrow> event \<Rightarrow> bool" where
  "is_low_time p (LowTime player t) = (player = p)"
| "is_low_time p ev = False"

fun is_critical_time :: "int \<Rightarrow> event \<Rightarrow> bool" where
  "is_critical_time p (CriticalTime player t) = (player = p)"
| "is_critical_time p ev = False"

definition low_time_count :: "int \<Rightarrow> world \<Rightarrow> nat" where
  "low_time_count p w = length (filter (is_low_time p) (emitted w))"

definition critical_time_count :: "int \<Rightarrow> world \<Rightarrow> nat" where
  "critical_time_count p w = length (filter (is_critical_time p) (emitted w))"

fun reseeds :: "int \<times> ui_event \<Rightarrow> bool" where
  "reseeds (t, ResetClicked) = True"
| "reseeds (t, TimeSelected seconds) = True"
| "reseeds (t, e) = False"

text \<open>
  The events already sent to a player, plus one while the player's flag is not yet set.
\<close>

definition low_due :: "int \<Rightarrow> world \<Rightarrow> nat" where
  "low_due p w =
     low_time_count p w + (case flags_of p w of None \<Rightarrow> 1 | Some f \<Rightarrow> if low f then 0 else 1)"

definition critical_due :: "int \<Rightarrow> world \<Rightarrow> nat" where
  "critical_due p w =
     critical_time_count p w
       + (case flags_of p w of None \<Rightarrow> 1 | Some f \<Rightarrow> if critical f then 0 else 1)"

text \<open>
  The ticks at which a player's clock showed a given number of seconds, and what decides
  the sending of a threshold event to a player: the flag, the events sent so far and the
  ticks at the threshold so far. \<open>tracked L T\<close> holds of these three when either the
  flag is clear, \<open>L\<close> events have been sent and \<open>T\<close> ticks were at the threshold, or
  the flag is set, \<open>L + 1\<close> events have been sent and more than \<open>T\<close> ticks were at
  the threshold.
\<close>

definition ticks_at :: "int \<Rightarrow> int \<Rightarrow> world \<Rightarrow> nat" where
  "ticks_at p t w = length (filter (\<lambda>ev. ev = GameTick p t) (emitted w))"

definition low_view :: "int \<Rightarrow> world \<Rightarrow> bool option \<times> nat \<times> nat" where
  "low_view p w = (map_option low (flags_of p w), low_time_count p w, ticks_at p 60 w)"

definition critical_view :: "int \<Rightarrow> world \<Rightarrow> bool option \<times> nat \<times> nat" where
  "critical_view p w =
     (map_option critical (flags_of p w), critical_time_count p w, ticks_at p 10 w)"

fun tracked :: "nat \<Rightarrow> nat \<Rightarrow> bool option \<times> nat \<times> nat \<Rightarrow> bool" where
  "tracked L T (None, c, k) = False"
| "tracked L T (Some flag, c, k) = (if flag then c = L + 1 \<and> T < k else c = L \<and> k = T)"

text \<open>
  The log of moves against the two counters, and the inputs of a running match: each
  arrives while a player is active, and none resets or reseeds.
\<close>

definition log_matches_moves :: "state \<Rightarrow> bool" where
  "log_matches_moves s \<longleftrightarrow>
     int (length (moves (currentMatchStats s))) = player1Moves s + player2Moves s"

fun match_input :: "int \<times> ui_event \<Rightarrow> bool" where
  "match_input (t, PlayerClicked player) = isValidPlayer player"
| "match_input (t, StartClicked) = True"
| "match_input (t, PauseClicked) = True"
| "match_input (t, TimerFired) = True"
| "match_input (t, ResetClicked) = False"
| "match_input (t, TimeSelected seconds) = False"

fun in_match :: "(int \<times> ui_event) list \<Rightarrow> world \<Rightarrow> bool" where
  "in_match [] w = True"
| "in_match (i # is) w =
     (match_input i \<and> activePlayer (store w) \<noteq> 0 \<and> in_match is (step i w))"

definition match_inv :: "state \<Rightarrow> bool" where
  "match_inv s \<longleftrightarrow>
     log_matches_moves s \<and> (activePlayer s = 0 \<or> activePlayer s = 1 \<or> activePlayer s = 2)"

text \<open>
  A stretch of a match after player 1 has started it: ticks, three turn switches, a click
  of the player who is not active, a pause with a click during it, and a resume.
\<close>

definition three_switches :: "(int \<times> ui_event) list" where
  "three_switches =
     [(1000, TimerFired), (1500, PlayerClicked 1), (1600, PlayerClicked 1), (2000, TimerFired),
      (2400, PlayerClicked 2), (2500, PauseClicked), (2600, PlayerClicked 1),
      (2700, StartClicked), (3000, TimerFired), (3100, PlayerClicked 1)]"

text \<open>
  A game played to the end and started again without a reset: both clocks are seeded with
  3 seconds, player 1 starts and switches, player 2 lets three ticks pass and loses,
  player 1 clicks again, which starts a game, and switches once more.
\<close>

definition restarted_match :: "(int \<times> ui_event) list" where
  "restarted_match =
     [(0, TimeSelected 3), (0, PlayerClicked 1), (500, PlayerClicked 1)] @ ticks 3 @
     [(5000, PlayerClicked 1), (6000, PlayerClicked 1)]"

text \<open>How often the function numbered \<open>c\<close> has been called.\<close>

definition invocations :: "nat \<Rightarrow> ('d, 'c) hub \<Rightarrow> nat" where
  "invocations c h = length (filter (\<lambda>entry. fst entry = Callback c) (calls h))"







definition always_throws :: "('d, 'c) behaviour" where
  "always_throws c args h = (Threw, h)"

definition counts_calls :: "(int, nat) behaviour" where
  "counts_calls c args h = (Returned, h\<lparr>client := Suc (client h)\<rparr>)"

definition reemits_first :: "(int, nat) behaviour" where
  "reemits_first c args h =
     (let h1 = h\<lparr>client := Suc (client h)\<rparr>
      in case args of
           [] \<Rightarrow> (Returned, h1)
         | data # rest \<Rightarrow>
             if client h1 = 1 then emit counts_calls ''t'' data h1 else (Returned, h1))"

section \<open>The store never shows a negative time unless it is handed one\<close>

lemma update_setting_seconds_inv:
  "seconds_inv s \<Longrightarrow> seconds_nonneg (UPDATE_SETTING kv) \<Longrightarrow> seconds_inv (update_setting kv s)"
  by (cases kv) (simp_all add: seconds_inv_def times_nonneg_def)

lemma dispatch_seconds_inv:
  "seconds_inv s \<Longrightarrow> seconds_nonneg a \<Longrightarrow> seconds_inv (dispatch a s)"
  by (cases a)
     (simp_all add: seconds_inv_def times_nonneg_def Let_def
        update_setting_seconds_inv[unfolded seconds_inv_def times_nonneg_def])

lemma observed_seconds_inv:
  "seconds_inv s \<Longrightarrow> \<forall>a\<in>set acts. seconds_nonneg a \<Longrightarrow>
   \<forall>s'\<in>set (observed acts s). seconds_inv s'"
proof (induction acts arbitrary: s)
  case Nil
  then show ?case by simp
next
  case (Cons a acts)
  have step: "seconds_inv (dispatch a s)"
    using Cons.prems by (simp add: dispatch_seconds_inv)
  have "\<forall>s'\<in>set (observed acts (dispatch a s)). seconds_inv s'"
    using Cons.IH[OF step] Cons.prems(2) by simp
  with step show ?case by simp
qed

lemma initialState_seconds_inv: "seconds_inv initialState"
  by (simp add: seconds_inv_def times_nonneg_def initialState_def)

text \<open>
  Claim C1, as the source has it. \<^verbatim>\<open>dispatch\<close> stores the seconds of a payload
  unchecked, so the claim holds of the command sequences that hand it no negative seconds:
  starting from the initial state, if every \<^verbatim>\<open>SET_TIME\<close>, every
  \<^verbatim>\<open>SET_DEFAULT_TIME\<close> and every \<^verbatim>\<open>UPDATE_SETTING\<close> of \<^verbatim>\<open>player1Time\<close>,
  \<^verbatim>\<open>player2Time\<close> or \<^verbatim>\<open>defaultTime\<close> in the sequence carries a whole number of
  seconds that is at least 0, then both players' times are at least 0 in the state after
  every command; and a \<^verbatim>\<open>DECREMENT_TIME\<close> of a player whose time is 0 leaves that time 0.
\<close>

theorem store_times_nonneg:
  assumes "\<forall>a\<in>set acts. seconds_nonneg a"
  shows "(\<forall>s\<in>set (observed acts initialState). times_nonneg s)
       \<and> player1Time (dispatch (DECREMENT_TIME 1) (s\<lparr>player1Time := 0\<rparr>)) = 0
       \<and> player2Time (dispatch (DECREMENT_TIME 2) (s\<lparr>player2Time := 0\<rparr>)) = 0"
  using observed_seconds_inv[OF initialState_seconds_inv assms]
  by (simp add: seconds_inv_def)

text \<open>
  The theorem at work: a time set to 1 and decremented twice is 1, then 0, then 0.
\<close>

theorem store_times_nonneg_witness:
  "list_all seconds_nonneg [SET_TIME 1 1, DECREMENT_TIME 1, DECREMENT_TIME 1]
   \<and> map player1Time (observed [SET_TIME 1 1, DECREMENT_TIME 1, DECREMENT_TIME 1] initialState)
       = [1, 0, 0]
   \<and> list_all times_nonneg
         (observed [SET_TIME 1 1, DECREMENT_TIME 1, DECREMENT_TIME 1] initialState)"
  using store_times_nonneg[of "[SET_TIME 1 1, DECREMENT_TIME 1, DECREMENT_TIME 1]"]
  by (simp add: initialState_def list_all_iff)

text \<open>
  Claim C1 as it is written, for every sequence of commands, fails at the sequence of the
  one command \<^verbatim>\<open>dispatch(SET_TIME, {player: 1, time: -5})\<close>: the subscribers of
  \<^verbatim>\<open>player1Time\<close> are handed -5.
\<close>

theorem store_set_time_negative:
  "\<not> times_nonneg (last (observed [SET_TIME 1 (- 5)] initialState))"
  by (simp add: times_nonneg_def initialState_def)


section \<open>Clicks that the engine ignores\<close>

text \<open>
  Claim C7. While the game runs and player 1 or player 2 is active, a click of a player
  who is not the active one changes nothing: the store, the engine's timer and flags, the
  statistics, the states shown to subscribers, the events emitted and the exceptions
  raised are all as before.
\<close>

theorem click_of_inactive_player_ignored:
  assumes "activePlayer (store w) = 1 \<or> activePlayer (store w) = 2"
    and "running w"
    and "player \<noteq> activePlayer (store w)"
  shows "handlePlayerClick player w = w"
  using assms by (auto simp: handlePlayerClick_def canPlayerSwitch_def Let_def)

text \<open>Player 1 has started the game; player 2 clicks.\<close>

theorem click_of_inactive_player_ignored_witness:
  "activePlayer (store (run [(0, PlayerClicked 1)] initialWorld)) = 1
   \<and> running (run [(0, PlayerClicked 1)] initialWorld)
   \<and> handlePlayerClick 2 (run [(0, PlayerClicked 1)] initialWorld)
       = run [(0, PlayerClicked 1)] initialWorld"
proof -
  let ?w = "run [(0, PlayerClicked 1)] initialWorld"
  have a: "activePlayer (store ?w) = 1" by code_simp
  have r: "running ?w" by code_simp
  have n: "(2::int) \<noteq> activePlayer (store ?w)" by code_simp
  show ?thesis
    using click_of_inactive_player_ignored[of ?w 2, OF _ r n] a r by simp
qed

text \<open>
  Claim C10. While the game is paused in the middle of a match (\<^verbatim>\<open>isPaused\<close> is true
  and a player is active), a click of any player, the active one included, changes
  nothing: no turn is switched and no move is recorded.
\<close>

theorem click_while_paused_ignored:
  assumes "isPaused (store w)" and "activePlayer (store w) \<noteq> 0"
  shows "handlePlayerClick player w = w"
  using assms by (simp add: handlePlayerClick_def Let_def)

text \<open>Player 1 has started the game and paused it; player 1 clicks.\<close>

theorem click_while_paused_ignored_witness:
  "isPaused (store (run [(0, PlayerClicked 1), (500, PauseClicked)] initialWorld))
   \<and> activePlayer (store (run [(0, PlayerClicked 1), (500, PauseClicked)] initialWorld)) = 1
   \<and> handlePlayerClick 1 (run [(0, PlayerClicked 1), (500, PauseClicked)] initialWorld)
       = run [(0, PlayerClicked 1), (500, PauseClicked)] initialWorld"
proof -
  let ?w = "run [(0, PlayerClicked 1), (500, PauseClicked)] initialWorld"
  have p: "isPaused (store ?w)" by code_simp
  have a: "activePlayer (store ?w) = 1" by code_simp
  have a0: "activePlayer (store ?w) \<noteq> 0" by code_simp
  show ?thesis
    using click_while_paused_ignored[of ?w 1, OF p a0] p a by simp
qed

section \<open>Two matches, step by step\<close>

text \<open>
  Claim C4. Both players are seeded 5 seconds and player 1 starts. After five ticks
  player 1 has 0 seconds, no player is active, and the engine has emitted one victory
  event, with winner 2, loser 1 and 5 seconds left to the winner. After four ticks
  player 1 has 1 second, is still the active player, and no victory has been emitted.
\<close>

theorem five_seconds_flag_fall:
  "player1Time (store (run (match_of 5 5) initialWorld)) = 0
   \<and> activePlayer (store (run (match_of 5 5) initialWorld)) = 0
   \<and> filter is_victory (emitted (run (match_of 5 5) initialWorld)) = [Victory 2 1 (Some 5)]
   \<and> player1Time (store (run (match_of 5 4) initialWorld)) = 1
   \<and> activePlayer (store (run (match_of 5 4) initialWorld)) = 1
   \<and> filter is_victory (emitted (run (match_of 5 4) initialWorld)) = []"
  by code_simp

text \<open>
  Claim C5. Both players are seeded 300 seconds, player 1 starts, three ticks pass and
  player 1 clicks. The engine emits one turn-switched event, from 1 to 2 with move number
  1; afterwards player 1 has made 1 move and has 297 seconds, and player 2 has 300
  seconds, as before the click.
\<close>

theorem switch_after_three_seconds:
  "filter is_switch (emitted (run (match_of 300 3 @ [(3500, PlayerClicked 1)]) initialWorld))
     = [PlayerSwitched 1 2 (Some 1)]
   \<and> player1Moves (store (run (match_of 300 3 @ [(3500, PlayerClicked 1)]) initialWorld)) = 1
   \<and> player1Time (store (run (match_of 300 3 @ [(3500, PlayerClicked 1)]) initialWorld)) = 297
   \<and> player2Time (store (run (match_of 300 3 @ [(3500, PlayerClicked 1)]) initialWorld)) = 300
   \<and> player2Time (store (run (match_of 300 3) initialWorld)) = 300"
  by code_simp


section \<open>A game without an active player does not run\<close>

lemma emit_event_engine_inv: "engine_inv (emit_event ev w) = engine_inv w"
  by (cases ev)
     (auto simp: engine_inv_def unowned_paused_def startMatch_def recordMove_def
        stats_handlePlayerSwitch_def stats_handleVictory_def store_dispatch_def Let_def)

lemma handleStart_engine_inv: "engine_inv w \<Longrightarrow> engine_inv (handleStart w)"
  by (auto simp: handleStart_def Let_def emit_event_engine_inv simp del: emit_event.simps)
     (auto simp: engine_inv_def unowned_paused_def store_dispatch_def startTimer_def)

lemma handlePause_engine_inv: "engine_inv w \<Longrightarrow> engine_inv (handlePause w)"
  by (auto simp: handlePause_def Let_def emit_event_engine_inv simp del: emit_event.simps)
     (auto simp: engine_inv_def unowned_paused_def store_dispatch_def startTimer_def stopTimer_def)

lemma resetGame_engine_inv: "engine_inv w \<Longrightarrow> engine_inv (resetGame w)"
  by (auto simp: resetGame_def Let_def emit_event_engine_inv simp del: emit_event.simps)
     (auto simp: engine_inv_def unowned_paused_def store_dispatch_def startTimer_def stopTimer_def)

lemma handlePlayerClick_engine_inv:
  "engine_inv w \<Longrightarrow> isValidPlayer player \<Longrightarrow> engine_inv (handlePlayerClick player w)"
  by (auto simp: handlePlayerClick_def Let_def emit_event_engine_inv simp del: emit_event.simps)
     (auto simp: engine_inv_def unowned_paused_def store_dispatch_def startTimer_def isValidPlayer_def canPlayerSwitch_def)

lemma handleTimeSelected_engine_inv: "engine_inv w \<Longrightarrow> engine_inv (handleTimeSelected seconds w)"
  by (auto simp: handleTimeSelected_def setTime_def Let_def engine_inv_def unowned_paused_def store_dispatch_def)

lemma set_flags_engine_inv: "engine_inv (set_flags p f w) = engine_inv w"
  by (simp add: set_flags_def engine_inv_def)

lemma checkLow_engine_inv:
  "checkLow player t w = Inr w' \<Longrightarrow> engine_inv w' = engine_inv w"
  by (auto simp: checkLow_def emit_event_engine_inv set_flags_engine_inv
      simp del: emit_event.simps split: if_splits option.splits)

lemma checkCritical_engine_inv:
  "checkCritical player t w = Inr w' \<Longrightarrow> engine_inv w' = engine_inv w"
  by (auto simp: checkCritical_def emit_event_engine_inv set_flags_engine_inv
      simp del: emit_event.simps split: if_splits option.splits)

lemma checkTimeThresholds_engine_inv:
  "checkTimeThresholds player t w = Inr w' \<Longrightarrow> engine_inv w' = engine_inv w"
  by (auto simp: checkTimeThresholds_def split: sum.splits
      dest: checkLow_engine_inv checkCritical_engine_inv)

lemma handleVictory_engine_inv: "engine_inv w \<Longrightarrow> engine_inv (handleVictory winner w)"
  by (auto simp: handleVictory_def Let_def emit_event_engine_inv simp del: emit_event.simps)
     (auto simp: engine_inv_def unowned_paused_def store_dispatch_def stopTimer_def)

lemma tick_engine_inv: "engine_inv w \<Longrightarrow> engine_inv (tick w)"
proof -
  assume inv: "engine_inv w"
  show ?thesis
  proof (cases "activePlayer (store w) = 0 \<or> isPaused (store w)")
    case True
    then show ?thesis using inv by (simp add: tick_def Let_def)
  next
    case False
    let ?ap = "activePlayer (store w)"
    let ?w1 = "store_dispatch (DECREMENT_TIME ?ap) w"
    let ?t = "if ?ap = 1 then player1Time (store ?w1) else player2Time (store ?w1)"
    let ?w2 = "emit_event (GameTick ?ap ?t) ?w1"
    have w1: "engine_inv ?w1"
      using inv False by (auto simp: engine_inv_def unowned_paused_def store_dispatch_def)
    then have w2: "engine_inv ?w2" by (simp add: emit_event_engine_inv del: emit_event.simps)
    show ?thesis
    proof (cases "checkTimeThresholds ?ap ?t ?w2")
      case (Inl e)
      then show ?thesis using w2 False
        by (simp add: tick_def Let_def engine_inv_def)
    next
      case (Inr w3)
      then have "engine_inv w3" using w2 checkTimeThresholds_engine_inv by blast
      then show ?thesis using Inr False
        by (simp add: tick_def Let_def handleVictory_engine_inv)
    qed
  qed
qed

lemma step_engine_inv: "engine_inv w \<Longrightarrow> valid_input i \<Longrightarrow> engine_inv (step i w)"
proof -
  assume inv: "engine_inv w" and v: "valid_input i"
  have d: "engine_inv (w\<lparr>dateNow := fst i\<rparr>)" using inv by (simp add: engine_inv_def)
  obtain t e where i: "i = (t, e)" by (cases i)
  show ?thesis
    using d v unfolding i step_def
    by (cases e)
       (simp_all add: handleStart_engine_inv handlePause_engine_inv resetGame_engine_inv
          handlePlayerClick_engine_inv handleTimeSelected_engine_inv tick_engine_inv)
qed

lemma run_engine_inv:
  "engine_inv w \<Longrightarrow> \<forall>i\<in>set is. valid_input i \<Longrightarrow> engine_inv (run is w)"
  by (induction "is" arbitrary: w) (simp_all add: step_engine_inv)

lemma initialWorld_engine_inv: "engine_inv initialWorld"
  by (simp add: engine_inv_def unowned_paused_def initialWorld_def initialState_def)

text \<open>
  Claim C2, as the source has it. The engine is driven from the initial state by any
  inputs in which the clicking player is 1 or 2. Then whenever no player is active the
  game is not running; the store's state after every \<^verbatim>\<open>dispatch\<close> the engine or the
  statistics listener makes has \<^verbatim>\<open>isPaused\<close> true whenever it has no active player;
  and after every input the interval timer is armed exactly when \<^verbatim>\<open>isPaused\<close> is false.
  The converse is not claimed: a paused match has an active player and does not run.
\<close>

theorem unowned_game_not_running:
  assumes "\<forall>i\<in>set is. valid_input i"
  shows "(activePlayer (store (run is initialWorld)) = 0 \<longrightarrow> \<not> running (run is initialWorld))
       \<and> (\<forall>s\<in>set (observedStates (run is initialWorld)). activePlayer s = 0 \<longrightarrow> isPaused s)
       \<and> timerInterval (run is initialWorld) = (\<not> isPaused (store (run is initialWorld)))"
  using run_engine_inv[OF initialWorld_engine_inv assms]
  by (auto simp: engine_inv_def unowned_paused_def running_def list_all_iff)

text \<open>The five-second match of claim C4, from the seeding to the fall of the flag.\<close>

theorem unowned_game_not_running_witness:
  "list_all valid_input (match_of 5 5)
   \<and> activePlayer (store (run (match_of 5 5) initialWorld)) = 0
   \<and> \<not> running (run (match_of 5 5) initialWorld)
   \<and> length (observedStates (run (match_of 5 5) initialWorld)) = 13
   \<and> list_all unowned_paused (observedStates (run (match_of 5 5) initialWorld))"
proof -
  have v: "\<forall>i\<in>set (match_of 5 5). valid_input i" by code_simp
  have a: "activePlayer (store (run (match_of 5 5) initialWorld)) = 0" by code_simp
  have n: "length (observedStates (run (match_of 5 5) initialWorld)) = 13" by code_simp
  show ?thesis
    using unowned_game_not_running[OF v] v a n
    by (simp add: list_all_iff unowned_paused_def)
qed

text \<open>
  Claim C2 as it is written, an equivalence, fails once player 1 has started the game and
  paused it: player 1 is active and the game does not run.
\<close>

theorem paused_match_has_owner:
  "\<not> owner_iff_idle (run [(0, PlayerClicked 1), (500, PauseClicked)] initialWorld)"
  by code_simp


section \<open>Threshold events fire at most once\<close>

lemma emit_event_low_due:
  "low_due p (emit_event ev w) = low_due p w + (if is_low_time p ev then 1 else 0)"
  by (cases ev)
     (simp_all add: low_due_def low_time_count_def flags_of_def startMatch_def recordMove_def
        stats_handlePlayerSwitch_def stats_handleVictory_def store_dispatch_def Let_def)

lemma emit_event_critical_due:
  "critical_due p (emit_event ev w) = critical_due p w + (if is_critical_time p ev then 1 else 0)"
  by (cases ev)
     (simp_all add: critical_due_def critical_time_count_def flags_of_def startMatch_def
        recordMove_def stats_handlePlayerSwitch_def stats_handleVictory_def store_dispatch_def
        Let_def)

lemma frame_low_due:
  "low_due p (store_dispatch a w) = low_due p w"
  "low_due p (startTimer w) = low_due p w"
  "low_due p (stopTimer w) = low_due p w"
  "low_due p (w\<lparr>dateNow := t\<rparr>) = low_due p w"
  "low_due p (w\<lparr>uncaught := u\<rparr>) = low_due p w"
  by (simp_all add: low_due_def low_time_count_def flags_of_def store_dispatch_def
        startTimer_def stopTimer_def)

lemma frame_critical_due:
  "critical_due p (store_dispatch a w) = critical_due p w"
  "critical_due p (startTimer w) = critical_due p w"
  "critical_due p (stopTimer w) = critical_due p w"
  "critical_due p (w\<lparr>dateNow := t\<rparr>) = critical_due p w"
  "critical_due p (w\<lparr>uncaught := u\<rparr>) = critical_due p w"
  by (simp_all add: critical_due_def critical_time_count_def flags_of_def store_dispatch_def
        startTimer_def stopTimer_def)

lemma handlers_low_due:
  "low_due p (handleStart w) = low_due p w"
  "low_due p (handlePause w) = low_due p w"
  "low_due p (handlePlayerClick player w) = low_due p w"
  "low_due p (handleVictory winner w) = low_due p w"
  by (simp_all add: handleStart_def handlePause_def handlePlayerClick_def handleVictory_def
        Let_def emit_event_low_due frame_low_due del: emit_event.simps)

lemma handlers_critical_due:
  "critical_due p (handleStart w) = critical_due p w"
  "critical_due p (handlePause w) = critical_due p w"
  "critical_due p (handlePlayerClick player w) = critical_due p w"
  "critical_due p (handleVictory winner w) = critical_due p w"
  by (simp_all add: handleStart_def handlePause_def handlePlayerClick_def handleVictory_def
        Let_def emit_event_critical_due frame_critical_due del: emit_event.simps)

lemma set_low_flag_low_due:
  "flags_of player w = Some f \<Longrightarrow> \<not> low f \<Longrightarrow>
   low_due p (set_flags player (f\<lparr>low := True\<rparr>) w) + (if player = p then 1 else 0) = low_due p w"
  by (auto simp: low_due_def low_time_count_def flags_of_def set_flags_def split: if_splits)

lemma set_critical_flag_low_due:
  "flags_of player w = Some f \<Longrightarrow>
   low_due p (set_flags player (f\<lparr>critical := True\<rparr>) w) = low_due p w"
  by (auto simp: low_due_def low_time_count_def flags_of_def set_flags_def split: if_splits)

lemma set_critical_flag_critical_due:
  "flags_of player w = Some f \<Longrightarrow> \<not> critical f \<Longrightarrow>
   critical_due p (set_flags player (f\<lparr>critical := True\<rparr>) w) + (if player = p then 1 else 0)
     = critical_due p w"
  by (auto simp: critical_due_def critical_time_count_def flags_of_def set_flags_def
      split: if_splits)

lemma set_low_flag_critical_due:
  "flags_of player w = Some f \<Longrightarrow>
   critical_due p (set_flags player (f\<lparr>low := True\<rparr>) w) = critical_due p w"
  by (auto simp: critical_due_def critical_time_count_def flags_of_def set_flags_def
      split: if_splits)

lemma checkLow_due:
  assumes "checkLow player t w = Inr w'"
  shows "low_due p w' = low_due p w" and "critical_due p w' = critical_due p w"
proof -
  show "low_due p w' = low_due p w"
    using assms set_low_flag_low_due[of player w _ p]
    by (auto simp: checkLow_def emit_event_low_due simp del: emit_event.simps
        split: if_splits option.splits)
  show "critical_due p w' = critical_due p w"
    using assms set_low_flag_critical_due[of player w _ p]
    by (auto simp: checkLow_def emit_event_critical_due simp del: emit_event.simps
        split: if_splits option.splits)
qed

lemma checkCritical_due:
  assumes "checkCritical player t w = Inr w'"
  shows "low_due p w' = low_due p w" and "critical_due p w' = critical_due p w"
proof -
  show "low_due p w' = low_due p w"
    using assms set_critical_flag_low_due[of player w _ p]
    by (auto simp: checkCritical_def emit_event_low_due simp del: emit_event.simps
        split: if_splits option.splits)
  show "critical_due p w' = critical_due p w"
    using assms set_critical_flag_critical_due[of player w _ p]
    by (auto simp: checkCritical_def emit_event_critical_due simp del: emit_event.simps
        split: if_splits option.splits)
qed

lemma checkTimeThresholds_due:
  assumes "checkTimeThresholds player t w = Inr w'"
  shows "low_due p w' = low_due p w" and "critical_due p w' = critical_due p w"
  using assms
  by (auto simp: checkTimeThresholds_def checkLow_due checkCritical_due split: sum.splits)


lemma tick_due:
  "low_due p (tick w) = low_due p w" "critical_due p (tick w) = critical_due p w"
proof -
  let ?ap = "activePlayer (store w)"
  let ?w1 = "store_dispatch (DECREMENT_TIME ?ap) w"
  let ?t = "if ?ap = 1 then player1Time (store ?w1) else player2Time (store ?w1)"
  let ?w2 = "emit_event (GameTick ?ap ?t) ?w1"
  have l2: "low_due p ?w2 = low_due p w"
    by (simp add: emit_event_low_due frame_low_due del: emit_event.simps)
  have c2: "critical_due p ?w2 = critical_due p w"
    by (simp add: emit_event_critical_due frame_critical_due del: emit_event.simps)
  show "low_due p (tick w) = low_due p w"
    using l2 checkTimeThresholds_due(1)[of ?ap ?t ?w2 _ p]
    by (auto simp: tick_def Let_def frame_low_due handlers_low_due simp del: emit_event.simps
        split: sum.splits)
  show "critical_due p (tick w) = critical_due p w"
    using c2 checkTimeThresholds_due(2)[of ?ap ?t ?w2 _ p]
    by (auto simp: tick_def Let_def frame_critical_due handlers_critical_due
        simp del: emit_event.simps split: sum.splits)
qed

lemma step_due:
  assumes "\<not> reseeds i"
  shows "low_due p (step i w) = low_due p w" and "critical_due p (step i w) = critical_due p w"
proof -
  obtain t e where i: "i = (t, e)" by (cases i)
  show "low_due p (step i w) = low_due p w"
    using assms unfolding i step_def
    by (cases e) (simp_all add: handlers_low_due tick_due frame_low_due)
  show "critical_due p (step i w) = critical_due p w"
    using assms unfolding i step_def
    by (cases e) (simp_all add: handlers_critical_due tick_due frame_critical_due)
qed

lemma run_due:
  assumes "\<forall>i\<in>set is. \<not> reseeds i"
  shows "low_due p (run is w) = low_due p w" and "critical_due p (run is w) = critical_due p w"
  using assms by (induction "is" arbitrary: w) (simp_all add: step_due)

lemma count_le_due:
  "low_time_count p w \<le> low_due p w" "low_due p w \<le> low_time_count p w + 1"
  "critical_time_count p w \<le> critical_due p w" "critical_due p w \<le> critical_time_count p w + 1"
  by (simp_all add: low_due_def critical_due_def split: option.splits)

lemma emit_event_low_view:
  "low_view p (emit_event ev w) =
     (case low_view p w of
        (f, c, k) \<Rightarrow> (f, c + (if is_low_time p ev then 1 else 0),
                        k + (if ev = GameTick p 60 then 1 else 0)))"
  by (cases ev)
     (simp_all add: low_view_def low_time_count_def ticks_at_def flags_of_def startMatch_def
        recordMove_def stats_handlePlayerSwitch_def stats_handleVictory_def store_dispatch_def
        Let_def)

lemma frame_low_view:
  "low_view p (store_dispatch a w) = low_view p w"
  "low_view p (startTimer w) = low_view p w"
  "low_view p (stopTimer w) = low_view p w"
  "low_view p (w\<lparr>dateNow := t\<rparr>) = low_view p w"
  "low_view p (w\<lparr>uncaught := u\<rparr>) = low_view p w"
  by (simp_all add: low_view_def low_time_count_def ticks_at_def flags_of_def
        store_dispatch_def startTimer_def stopTimer_def)

lemma handlers_low_view:
  "low_view p (handleStart w) = low_view p w"
  "low_view p (handlePause w) = low_view p w"
  "low_view p (handlePlayerClick player w) = low_view p w"
  "low_view p (handleVictory winner w) = low_view p w"
  by (simp_all add: handleStart_def handlePause_def handlePlayerClick_def handleVictory_def
        Let_def emit_event_low_view frame_low_view split: prod.splits
        del: emit_event.simps)

lemma set_critical_flag_low_view:
  "flags_of player w = Some f \<Longrightarrow>
   low_view p (set_flags player (f\<lparr>critical := True\<rparr>) w) = low_view p w"
  by (auto simp: low_view_def low_time_count_def ticks_at_def flags_of_def set_flags_def
      split: if_splits)

lemma checkCritical_low_view:
  "checkCritical player t w = Inr w' \<Longrightarrow> low_view p w' = low_view p w"
  by (auto simp: checkCritical_def emit_event_low_view set_critical_flag_low_view
      simp del: emit_event.simps split: if_splits option.splits prod.splits)

lemma set_low_flag_low_view:
  "flags_of player w = Some f \<Longrightarrow>
   low_view p (set_flags player (f\<lparr>low := True\<rparr>) w) =
     (case low_view p w of (g, c, k) \<Rightarrow> (if player = p then Some True else g, c, k))"
  by (auto simp: low_view_def low_time_count_def ticks_at_def flags_of_def set_flags_def
      split: if_splits)

lemma tick_checkLow_tracked:
  assumes "tracked L T (low_view p w)"
  shows "case checkLow ap t (emit_event (GameTick ap t) w) of
           Inl e \<Rightarrow> tracked L T (low_view p (emit_event (GameTick ap t) w))
         | Inr w' \<Rightarrow> tracked L T (low_view p w')"
proof -
  let ?w2 = "emit_event (GameTick ap t) w"
  obtain f c k where v: "low_view p w = (f, c, k)" by (cases "low_view p w")
  obtain flag where f: "f = Some flag" using assms v by (cases f) simp_all
  have v2: "low_view p ?w2 = (Some flag, c, k + (if ap = p \<and> t = 60 then 1 else 0))"
    using v f by (simp add: emit_event_low_view del: emit_event.simps)
  have fl: "map_option low (flags_of p ?w2) = Some flag"
    using v2 by (simp add: low_view_def)
  show ?thesis
  proof (cases "t = 60")
    case False
    then show ?thesis using assms v f v2
      by (simp add: checkLow_def LOW_TIME_THRESHOLD_def del: emit_event.simps)
  next
    case True
    show ?thesis
    proof (cases "flags_of ap ?w2")
      case None
      then have "ap \<noteq> p" using fl by auto
      then show ?thesis using None True assms v f v2
        by (simp add: checkLow_def LOW_TIME_THRESHOLD_def del: emit_event.simps)
    next
      case (Some g)
      show ?thesis
      proof (cases "low g")
        case True
        have "ap = p \<Longrightarrow> flag" using Some True fl by simp
        then show ?thesis using Some True \<open>t = 60\<close> assms v f v2
          by (auto simp: checkLow_def LOW_TIME_THRESHOLD_def simp del: emit_event.simps)
      next
        case False
        have "ap = p \<Longrightarrow> \<not> flag" using Some False fl by simp
        then show ?thesis using Some False \<open>t = 60\<close> assms v f v2
          by (auto simp: checkLow_def LOW_TIME_THRESHOLD_def emit_event_low_view
                set_low_flag_low_view
              simp del: emit_event.simps)
      qed
    qed
  qed
qed

lemma tick_low_tracked:
  assumes "tracked L T (low_view p w)"
  shows "tracked L T (low_view p (tick w))"
proof (cases "activePlayer (store w) = 0 \<or> isPaused (store w)")
  case True
  then show ?thesis using assms by (auto simp: tick_def Let_def)
next
  case False
  let ?ap = "activePlayer (store w)"
  let ?w1 = "store_dispatch (DECREMENT_TIME ?ap) w"
  let ?t = "if ?ap = 1 then player1Time (store ?w1) else player2Time (store ?w1)"
  let ?w2 = "emit_event (GameTick ?ap ?t) ?w1"
  have t1: "tracked L T (low_view p ?w1)" using assms by (simp add: frame_low_view)
  note c = tick_checkLow_tracked[OF t1, of ?ap ?t]
  show ?thesis
  proof (cases "checkLow ?ap ?t ?w2")
    case (Inl e)
    then have "tick w = ?w2\<lparr>uncaught := uncaught ?w2 @ [e]\<rparr>"
      using False by (simp add: tick_def Let_def checkTimeThresholds_def del: emit_event.simps)
    then show ?thesis using c Inl by (simp add: frame_low_view del: emit_event.simps)
  next
    case (Inr w3)
    then have t3: "tracked L T (low_view p w3)" using c by simp
    show ?thesis
    proof (cases "checkCritical ?ap ?t w3")
      case (Inl e)
      then have "checkTimeThresholds ?ap ?t ?w2 = Inl e"
        using Inr by (simp add: checkTimeThresholds_def)
      then have "tick w = ?w2\<lparr>uncaught := uncaught ?w2 @ [e]\<rparr>"
        using False by (simp add: tick_def Let_def del: emit_event.simps)
      moreover have "w3 = ?w2"
        using Inl Inr
        by (auto simp: checkLow_def checkCritical_def flags_of_def set_flags_def
            simp del: emit_event.simps split: if_splits option.splits)
      ultimately show ?thesis using t3 by (simp add: frame_low_view del: emit_event.simps)
    next
      case (Inr w4)
      then have t4: "tracked L T (low_view p w4)"
        using t3 checkCritical_low_view by simp
      have "checkTimeThresholds ?ap ?t ?w2 = Inr w4"
        using Inr \<open>checkLow ?ap ?t ?w2 = Inr w3\<close> by (simp add: checkTimeThresholds_def)
      then have "tick w = (if ?t \<le> 0 then handleVictory (if ?ap = 1 then 2 else 1) w4 else w4)"
        using False by (simp add: tick_def Let_def del: emit_event.simps)
      then show ?thesis using t4 by (simp add: handlers_low_view)
    qed
  qed
qed


lemma emit_event_critical_view:
  "critical_view p (emit_event ev w) =
     (case critical_view p w of
        (f, c, k) \<Rightarrow> (f, c + (if is_critical_time p ev then 1 else 0),
                        k + (if ev = GameTick p 10 then 1 else 0)))"
  by (cases ev)
     (simp_all add: critical_view_def critical_time_count_def ticks_at_def flags_of_def
        startMatch_def recordMove_def stats_handlePlayerSwitch_def stats_handleVictory_def
        store_dispatch_def Let_def)

lemma frame_critical_view:
  "critical_view p (store_dispatch a w) = critical_view p w"
  "critical_view p (startTimer w) = critical_view p w"
  "critical_view p (stopTimer w) = critical_view p w"
  "critical_view p (w\<lparr>dateNow := t\<rparr>) = critical_view p w"
  "critical_view p (w\<lparr>uncaught := u\<rparr>) = critical_view p w"
  by (simp_all add: critical_view_def critical_time_count_def ticks_at_def flags_of_def
        store_dispatch_def startTimer_def stopTimer_def)

lemma handlers_critical_view:
  "critical_view p (handleStart w) = critical_view p w"
  "critical_view p (handlePause w) = critical_view p w"
  "critical_view p (handlePlayerClick player w) = critical_view p w"
  "critical_view p (handleVictory winner w) = critical_view p w"
  by (simp_all add: handleStart_def handlePause_def handlePlayerClick_def handleVictory_def
        Let_def emit_event_critical_view frame_critical_view split: prod.splits
        del: emit_event.simps)

lemma set_low_flag_critical_view:
  "flags_of player w = Some f \<Longrightarrow>
   critical_view p (set_flags player (f\<lparr>low := True\<rparr>) w) = critical_view p w"
  by (auto simp: critical_view_def critical_time_count_def ticks_at_def flags_of_def
        set_flags_def
      split: if_splits)

lemma checkLow_critical_view:
  "checkLow player t w = Inr w' \<Longrightarrow> critical_view p w' = critical_view p w"
  by (auto simp: checkLow_def emit_event_critical_view set_low_flag_critical_view
      simp del: emit_event.simps split: if_splits option.splits prod.splits)

lemma set_critical_flag_critical_view:
  "flags_of player w = Some f \<Longrightarrow>
   critical_view p (set_flags player (f\<lparr>critical := True\<rparr>) w) =
     (case critical_view p w of (g, c, k) \<Rightarrow> (if player = p then Some True else g, c, k))"
  by (auto simp: critical_view_def critical_time_count_def ticks_at_def flags_of_def
        set_flags_def
      split: if_splits)

lemma checkCritical_tracked:
  assumes "tracked L T (Some flag, c, k)"
    and "critical_view p w = (Some flag, c, k + (if ap = p \<and> t = 10 then 1 else 0))"
  shows "case checkCritical ap t w of
           Inl e \<Rightarrow> tracked L T (critical_view p w)
         | Inr w' \<Rightarrow> tracked L T (critical_view p w')"
proof -
  have fl: "map_option critical (flags_of p w) = Some flag"
    using assms(2) by (simp add: critical_view_def)
  show ?thesis
  proof (cases "t = 10")
    case False
    then show ?thesis using assms
      by (simp add: checkCritical_def CRITICAL_THRESHOLD_def)
  next
    case True
    show ?thesis
    proof (cases "flags_of ap w")
      case None
      then have "ap \<noteq> p" using fl by auto
      then show ?thesis using None True assms
        by (simp add: checkCritical_def CRITICAL_THRESHOLD_def)
    next
      case (Some g)
      show ?thesis
      proof (cases "critical g")
        case True
        have "ap = p \<Longrightarrow> flag" using Some True fl by simp
        then show ?thesis using Some True \<open>t = 10\<close> assms
          by (auto simp: checkCritical_def CRITICAL_THRESHOLD_def)
      next
        case False
        have "ap = p \<Longrightarrow> \<not> flag" using Some False fl by simp
        then show ?thesis using Some False \<open>t = 10\<close> assms
          by (auto simp: checkCritical_def CRITICAL_THRESHOLD_def emit_event_critical_view
                set_critical_flag_critical_view
              simp del: emit_event.simps)
      qed
    qed
  qed
qed

lemma tick_critical_tracked:
  assumes "tracked L T (critical_view p w)"
  shows "tracked L T (critical_view p (tick w))"
proof (cases "activePlayer (store w) = 0 \<or> isPaused (store w)")
  case True
  then show ?thesis using assms by (auto simp: tick_def Let_def)
next
  case False
  let ?ap = "activePlayer (store w)"
  let ?w1 = "store_dispatch (DECREMENT_TIME ?ap) w"
  let ?t = "if ?ap = 1 then player1Time (store ?w1) else player2Time (store ?w1)"
  let ?w2 = "emit_event (GameTick ?ap ?t) ?w1"
  obtain f c k where v: "critical_view p w = (f, c, k)" by (cases "critical_view p w")
  obtain flag where f: "f = Some flag" using assms v by (cases f) simp_all
  have t0: "tracked L T (Some flag, c, k)" using assms v f by simp
  have v2: "critical_view p ?w2 = (Some flag, c, k + (if ?ap = p \<and> ?t = 10 then 1 else 0))"
    using v f by (simp add: emit_event_critical_view frame_critical_view del: emit_event.simps)
  show ?thesis
  proof (cases "checkLow ?ap ?t ?w2")
    case (Inl e)
    then have tk: "tick w = ?w2\<lparr>uncaught := uncaught ?w2 @ [e]\<rparr>"
      using False by (simp add: tick_def Let_def checkTimeThresholds_def del: emit_event.simps)
    have "?t = 60 \<and> flags_of ?ap ?w2 = None"
      using Inl
      by (auto simp: checkLow_def LOW_TIME_THRESHOLD_def simp del: emit_event.simps
          split: if_splits option.splits)
    then have "critical_view p ?w2 = (Some flag, c, k)" using v2 by simp
    then show ?thesis using tk t0 by (simp add: frame_critical_view del: emit_event.simps)
  next
    case (Inr w3)
    then have v3: "critical_view p w3 = (Some flag, c, k + (if ?ap = p \<and> ?t = 10 then 1 else 0))"
      using v2 checkLow_critical_view by simp
    note c = checkCritical_tracked[OF t0 v3]
    show ?thesis
    proof (cases "checkCritical ?ap ?t w3")
      case (Inl e)
      then have "checkTimeThresholds ?ap ?t ?w2 = Inl e"
        using Inr by (simp add: checkTimeThresholds_def)
      then have "tick w = ?w2\<lparr>uncaught := uncaught ?w2 @ [e]\<rparr>"
        using False by (simp add: tick_def Let_def del: emit_event.simps)
      moreover have "tracked L T (critical_view p ?w2)"
        using c Inl v2 v3 by simp
      ultimately show ?thesis by (simp add: frame_critical_view del: emit_event.simps)
    next
      case (Inr w4)
      then have t4: "tracked L T (critical_view p w4)" using c by simp
      have "checkTimeThresholds ?ap ?t ?w2 = Inr w4"
        using Inr \<open>checkLow ?ap ?t ?w2 = Inr w3\<close> by (simp add: checkTimeThresholds_def)
      then have "tick w = (if ?t \<le> 0 then handleVictory (if ?ap = 1 then 2 else 1) w4 else w4)"
        using False by (simp add: tick_def Let_def del: emit_event.simps)
      then show ?thesis using t4 by (simp add: handlers_critical_view)
    qed
  qed
qed

lemma step_tracked:
  assumes "\<not> reseeds i"
  shows "tracked L T (low_view p w) \<Longrightarrow> tracked L T (low_view p (step i w))"
    and "tracked L T (critical_view p w) \<Longrightarrow> tracked L T (critical_view p (step i w))"
proof -
  obtain t e where i: "i = (t, e)" by (cases i)
  show "tracked L T (low_view p w) \<Longrightarrow> tracked L T (low_view p (step i w))"
    using assms unfolding i step_def
    by (cases e) (simp_all add: handlers_low_view tick_low_tracked frame_low_view)
  show "tracked L T (critical_view p w) \<Longrightarrow> tracked L T (critical_view p (step i w))"
    using assms unfolding i step_def
    by (cases e) (simp_all add: handlers_critical_view tick_critical_tracked frame_critical_view)
qed

lemma run_low_tracked:
  "\<forall>i\<in>set is. \<not> reseeds i \<Longrightarrow> tracked L T (low_view p w) \<Longrightarrow>
   tracked L T (low_view p (run is w))"
  by (induction "is" arbitrary: w) (simp_all add: step_tracked)

lemma run_critical_tracked:
  "\<forall>i\<in>set is. \<not> reseeds i \<Longrightarrow> tracked L T (critical_view p w) \<Longrightarrow>
   tracked L T (critical_view p (run is w))"
  by (induction "is" arbitrary: w) (simp_all add: step_tracked)

lemma tracked_count:
  "tracked L T (f, c, k) \<Longrightarrow> c = L + (if T < k then 1 else 0)"
  by (cases f) (auto split: if_splits)

lemma run_low_exact:
  assumes "\<forall>i\<in>set is. \<not> reseeds i" and "flags_of p w = Some noFlags"
  shows "low_time_count p (run is w)
           = low_time_count p w + (if ticks_at p 60 w < ticks_at p 60 (run is w) then 1 else 0)"
proof -
  have "tracked (low_time_count p w) (ticks_at p 60 w) (low_view p w)"
    using assms(2) by (simp add: low_view_def noFlags_def)
  then have "tracked (low_time_count p w) (ticks_at p 60 w) (low_view p (run is w))"
    using assms(1) run_low_tracked by blast
  then show ?thesis unfolding low_view_def by (rule tracked_count)
qed

lemma run_critical_exact:
  assumes "\<forall>i\<in>set is. \<not> reseeds i" and "flags_of p w = Some noFlags"
  shows "critical_time_count p (run is w)
           = critical_time_count p w
               + (if ticks_at p 10 w < ticks_at p 10 (run is w) then 1 else 0)"
proof -
  have "tracked (critical_time_count p w) (ticks_at p 10 w) (critical_view p w)"
    using assms(2) by (simp add: critical_view_def noFlags_def)
  then have "tracked (critical_time_count p w) (ticks_at p 10 w) (critical_view p (run is w))"
    using assms(1) run_critical_tracked by blast
  then show ?thesis unfolding critical_view_def by (rule tracked_count)
qed

text \<open>
  Claim C3, as the source has it. Under any inputs that contain no reset and no time
  selection, whatever the order and number of ticks, clicks and pauses, the engine emits
  at most one low-time event and at most one critical-time event for each player. When
  the inputs begin with both flags of player 1 or 2 clear, as after a reset or a time
  selection, that player is sent a low-time event exactly if one of the player's ticks
  showed 60 seconds, and a critical-time event exactly if one of them showed 10 seconds;
  a player whose clock is at neither value on a tick of theirs is sent neither.
\<close>

theorem threshold_events_at_most_once:
  assumes "\<forall>i\<in>set is. \<not> reseeds i"
  shows "low_time_count p (run is w) \<le> low_time_count p w + 1
       \<and> critical_time_count p (run is w) \<le> critical_time_count p w + 1
       \<and> (flags_of p w = Some noFlags \<longrightarrow>
            low_time_count p (run is w)
              = low_time_count p w + (if ticks_at p 60 w < ticks_at p 60 (run is w) then 1 else 0)
            \<and> critical_time_count p (run is w)
              = critical_time_count p w
                  + (if ticks_at p 10 w < ticks_at p 10 (run is w) then 1 else 0))"
proof -
  have "low_time_count p (run is w) \<le> low_due p (run is w)" by (rule count_le_due)
  also have "\<dots> = low_due p w" using assms by (rule run_due)
  also have "\<dots> \<le> low_time_count p w + 1" by (rule count_le_due)
  finally have l: "low_time_count p (run is w) \<le> low_time_count p w + 1" .
  have "critical_time_count p (run is w) \<le> critical_due p (run is w)" by (rule count_le_due)
  also have "\<dots> = critical_due p w" using assms by (rule run_due)
  also have "\<dots> \<le> critical_time_count p w + 1" by (rule count_le_due)
  finally have c: "critical_time_count p (run is w) \<le> critical_time_count p w + 1" .
  from l c run_low_exact[OF assms] run_critical_exact[OF assms] show ?thesis by simp
qed

text \<open>
  Seeded with 62 seconds, player 1 lets 55 ticks pass: the clock shows 60 and 10 on the way
  and one event of each kind is sent.
\<close>

theorem threshold_events_at_most_once_witness:
  "list_all (\<lambda>i. \<not> reseeds i) ([(0, PlayerClicked 1)] @ ticks 55)
   \<and> flags_of 1 (run [(0, TimeSelected 62)] initialWorld) = Some noFlags
   \<and> low_time_count 1 (run [(0, TimeSelected 62)] initialWorld) = 0
   \<and> ticks_at 1 60 (run [(0, TimeSelected 62)] initialWorld) = 0
   \<and> ticks_at 1 60 (run ([(0, PlayerClicked 1)] @ ticks 55) (run [(0, TimeSelected 62)] initialWorld)) = 1
   \<and> low_time_count 1 (run ([(0, PlayerClicked 1)] @ ticks 55) (run [(0, TimeSelected 62)] initialWorld)) = 1
   \<and> critical_time_count 1 (run ([(0, PlayerClicked 1)] @ ticks 55) (run [(0, TimeSelected 62)] initialWorld)) = 1"
proof -
  have r: "\<forall>i\<in>set ([(0, PlayerClicked 1)] @ ticks 55). \<not> reseeds i" by code_simp
  have f: "flags_of 1 (run [(0, TimeSelected 62)] initialWorld) = Some noFlags" by code_simp
  have z: "low_time_count 1 (run [(0, TimeSelected 62)] initialWorld) = 0"
    "critical_time_count 1 (run [(0, TimeSelected 62)] initialWorld) = 0"
    "ticks_at 1 60 (run [(0, TimeSelected 62)] initialWorld) = 0"
    "ticks_at 1 10 (run [(0, TimeSelected 62)] initialWorld) = 0"
    by code_simp+
  have t: "ticks_at 1 60 (run ([(0, PlayerClicked 1)] @ ticks 55) (run [(0, TimeSelected 62)] initialWorld)) = 1"
    "ticks_at 1 10 (run ([(0, PlayerClicked 1)] @ ticks 55) (run [(0, TimeSelected 62)] initialWorld)) = 1"
    by code_simp+
  show ?thesis
    using threshold_events_at_most_once[OF r, of 1 "run [(0, TimeSelected 62)] initialWorld"]
      r f z t
    by (simp add: list_all_iff)
qed

text \<open>
  Claim C3 as it is written, exactly one event of each kind for each player in every
  match, fails at the five-second match of claim C4: it runs from the seeding to the
  victory and player 1 is sent no low-time event.
\<close>

theorem short_match_without_low_time:
  "low_time_count 1 (run (match_of 5 5) initialWorld) \<noteq> 1"
  by code_simp


section \<open>The log of moves and the move counters\<close>

lemma emit_event_store:
  "player1Moves (store (emit_event ev w)) = player1Moves (store w)"
  "player2Moves (store (emit_event ev w)) = player2Moves (store w)"
  "activePlayer (store (emit_event ev w)) = activePlayer (store w)"
  "length (moves (currentMatchStats (store (emit_event ev w)))) =
     (case ev of GameStarted p \<Rightarrow> 0
      | PlayerSwitched from to n \<Rightarrow> Suc (length (moves (currentMatchStats (store w))))
      | _ \<Rightarrow> length (moves (currentMatchStats (store w))))"
  by (cases ev;
      simp add: startMatch_def recordMove_def stats_handlePlayerSwitch_def
        stats_handleVictory_def store_dispatch_def spread_def Let_def)+

lemma emit_event_match_inv:
  "\<not> is_switch ev \<Longrightarrow> (\<forall>p. ev \<noteq> GameStarted p) \<Longrightarrow>
   match_inv (store (emit_event ev w)) = match_inv (store w)"
  unfolding match_inv_def log_matches_moves_def emit_event_store
  by (cases ev) simp_all

lemma handleStart_match_inv: "match_inv (store w) \<Longrightarrow> match_inv (store (handleStart w))"
  by (simp add: handleStart_def Let_def emit_event_match_inv del: emit_event.simps)
     (auto simp: match_inv_def log_matches_moves_def store_dispatch_def startTimer_def)

lemma handlePause_match_inv: "match_inv (store w) \<Longrightarrow> match_inv (store (handlePause w))"
  by (simp add: handlePause_def Let_def emit_event_match_inv del: emit_event.simps)
     (auto simp: match_inv_def log_matches_moves_def store_dispatch_def startTimer_def
        stopTimer_def)

lemma handleVictory_match_inv:
  "match_inv (store w) \<Longrightarrow> match_inv (store (handleVictory winner w))"
  by (simp add: handleVictory_def Let_def emit_event_match_inv del: emit_event.simps)
     (auto simp: match_inv_def log_matches_moves_def store_dispatch_def stopTimer_def)

lemma handlePlayerClick_match_inv:
  assumes "match_inv (store w)" and "activePlayer (store w) \<noteq> 0"
  shows "match_inv (store (handlePlayerClick player w))"
proof (cases "canPlayerSwitch player (activePlayer (store w)) \<and> \<not> isPaused (store w)")
  case False
  then show ?thesis using assms by (auto simp: handlePlayerClick_def Let_def)
next
  case True
  then have p: "player = activePlayer (store w)" "player = 1 \<or> player = 2"
    using assms by (auto simp: canPlayerSwitch_def match_inv_def)
  show ?thesis
    using assms True p
    unfolding match_inv_def log_matches_moves_def handlePlayerClick_def Let_def
    by (auto simp: emit_event_store store_dispatch_def simp del: emit_event.simps)
qed

lemma start_click:
  assumes "activePlayer (store w) = 0" and "isValidPlayer player"
  shows "moves (currentMatchStats (store (handlePlayerClick player w))) = []"
    and "player1Moves (store (handlePlayerClick player w)) = player1Moves (store w)"
    and "player2Moves (store (handlePlayerClick player w)) = player2Moves (store w)"
    and "activePlayer (store (handlePlayerClick player w)) = player"
  using assms
  by (simp_all add: handlePlayerClick_def canPlayerSwitch_def Let_def startMatch_def
        store_dispatch_def startTimer_def spread_def)


lemma checkTimeThresholds_store:
  "checkTimeThresholds player t w = Inr w' \<Longrightarrow> store w' = store w"
  by (auto simp: checkTimeThresholds_def checkLow_def checkCritical_def set_flags_def
      split: sum.splits if_splits option.splits)

lemma tick_match_inv: "match_inv (store w) \<Longrightarrow> match_inv (store (tick w))"
proof -
  assume inv: "match_inv (store w)"
  let ?ap = "activePlayer (store w)"
  let ?w1 = "store_dispatch (DECREMENT_TIME ?ap) w"
  let ?t = "if ?ap = 1 then player1Time (store ?w1) else player2Time (store ?w1)"
  let ?w2 = "emit_event (GameTick ?ap ?t) ?w1"
  have "match_inv (store ?w1)"
    using inv by (auto simp: match_inv_def log_matches_moves_def store_dispatch_def)
  then have w2: "match_inv (store ?w2)"
    by (simp add: emit_event_match_inv del: emit_event.simps)
  show ?thesis
  proof (cases "checkTimeThresholds ?ap ?t ?w2")
    case (Inl e)
    then show ?thesis using inv w2 by (simp add: tick_def Let_def del: emit_event.simps)
  next
    case (Inr w3)
    then have "match_inv (store w3)" using w2 checkTimeThresholds_store by simp
    then show ?thesis
      using inv Inr by (simp add: tick_def Let_def handleVictory_match_inv del: emit_event.simps)
  qed
qed

lemma step_match_inv:
  assumes "match_inv (store w)" and "match_input i" and "activePlayer (store w) \<noteq> 0"
  shows "match_inv (store (step i w))"
proof -
  obtain t e where i: "i = (t, e)" by (cases i)
  have d: "match_inv (store (w\<lparr>dateNow := t\<rparr>))" "activePlayer (store (w\<lparr>dateNow := t\<rparr>)) \<noteq> 0"
    using assms by simp_all
  show ?thesis
    using assms(2) d unfolding i step_def
    by (cases e)
       (simp_all add: handleStart_match_inv handlePause_match_inv handlePlayerClick_match_inv
          tick_match_inv)
qed

lemma run_match_inv:
  "match_inv (store w) \<Longrightarrow> in_match is w \<Longrightarrow> match_inv (store (run is w))"
  by (induction "is" arbitrary: w) (simp_all add: step_match_inv)

text \<open>
  From a start with no active player and both move counters 0, as at the beginning and
  after every reset, the engine keeps the log and the counters in step. The click of
  player 1 or 2 that starts the game leaves the log of moves empty and both counters 0.
  After any further inputs (clicks of players 1 and 2, whether they switch the turn or
  are ignored, ticks, pauses and resumes, each arriving while a player is active) the
  length of \<^verbatim>\<open>currentMatchStats.moves\<close> is \<^verbatim>\<open>player1Moves + player2Moves\<close>.
\<close>

theorem log_length_is_move_count:
  assumes "activePlayer (store w) = 0"
    and "player1Moves (store w) = 0" and "player2Moves (store w) = 0"
    and "isValidPlayer p"
    and "in_match is (step (t, PlayerClicked p) w)"
  shows "moves (currentMatchStats (store (step (t, PlayerClicked p) w))) = []
       \<and> player1Moves (store (step (t, PlayerClicked p) w)) = 0
       \<and> player2Moves (store (step (t, PlayerClicked p) w)) = 0
       \<and> log_matches_moves (store (run is (step (t, PlayerClicked p) w)))"
proof -
  let ?w = "w\<lparr>dateNow := t\<rparr>"
  have a: "activePlayer (store ?w) = 0" using assms(1) by simp
  have s: "step (t, PlayerClicked p) w = handlePlayerClick p ?w" by (simp add: step_def)
  have m: "moves (currentMatchStats (store (handlePlayerClick p ?w))) = []"
    and m1: "player1Moves (store (handlePlayerClick p ?w)) = 0"
    and m2: "player2Moves (store (handlePlayerClick p ?w)) = 0"
    and ap: "activePlayer (store (handlePlayerClick p ?w)) = p"
    using start_click[OF a assms(4)] assms(2,3) by simp_all
  have "match_inv (store (handlePlayerClick p ?w))"
    using m m1 m2 ap assms(4) by (simp add: match_inv_def log_matches_moves_def isValidPlayer_def)
  then have "match_inv (store (run is (step (t, PlayerClicked p) w)))"
    using assms(5) unfolding s by (rule run_match_inv)
  then show ?thesis using m m1 m2 unfolding s by (simp add: match_inv_def)
qed

text \<open>Three switches: the log has three entries, player 1 has moved twice and player 2 once.\<close>

theorem log_length_is_move_count_witness:
  "in_match three_switches (step (0, PlayerClicked 1) initialWorld)
   \<and> length (moves (currentMatchStats (store (run three_switches (step (0, PlayerClicked 1) initialWorld))))) = 3
   \<and> player1Moves (store (run three_switches (step (0, PlayerClicked 1) initialWorld))) = 2
   \<and> player2Moves (store (run three_switches (step (0, PlayerClicked 1) initialWorld))) = 1
   \<and> log_matches_moves (store (run three_switches (step (0, PlayerClicked 1) initialWorld)))"
proof -
  have a: "activePlayer (store initialWorld) = 0" "player1Moves (store initialWorld) = 0"
    "player2Moves (store initialWorld) = 0" "isValidPlayer 1"
    by code_simp+
  have i: "in_match three_switches (step (0, PlayerClicked 1) initialWorld)" by code_simp
  have l: "length (moves (currentMatchStats (store (run three_switches (step (0, PlayerClicked 1) initialWorld))))) = 3"
    by code_simp
  have m: "player1Moves (store (run three_switches (step (0, PlayerClicked 1) initialWorld))) = 2"
    by code_simp
  show ?thesis
    using log_length_is_move_count[OF a i] i l m by (simp add: log_matches_moves_def)
qed


text \<open>
  Claim C6 says that within a match the log of moves is as long as the two move counters
  add up to. The engine takes a click after a victory for the first move of a game:
  \<^verbatim>\<open>startMatch\<close> empties the log, and the counters, which only \<^verbatim>\<open>RESET_GAME\<close> sets
  to 0, keep the moves of the game before. After the first switch of the game that was
  started again the log has 1 entry and the counters add up to 2.
\<close>

theorem restarted_match_log_short:
  "length (moves (currentMatchStats (store (run restarted_match initialWorld)))) = 1
   \<and> player1Moves (store (run restarted_match initialWorld)) = 2
   \<and> player2Moves (store (run restarted_match initialWorld)) = 0
   \<and> filter is_victory (emitted (run restarted_match initialWorld)) = [Victory 1 2 (Some 3)]
   \<and> \<not> log_matches_moves (store (run restarted_match initialWorld))"
  by code_simp

section \<open>A callback that throws stops nobody else\<close>


















section \<open>A callback registered with once can run twice\<close>

text \<open>
  Claim C9 says that a callback registered with \<^verbatim>\<open>once\<close> is called at most one time.
  The wrapper removes itself after the callback has returned. A callback that throws is
  therefore never removed: registered once and published to twice, it is called twice.
\<close>

theorem once_callback_called_twice:
  "invocations 0 (snd (emit always_throws ''t'' (2::int)
      (snd (emit always_throws ''t'' 1 (once ''t'' 0 (emptyHub ())))))) = 2"
  by (simp add: invocations_def emit_def once_def on_def emptyHub_def try_catch_def
        call_function_def always_throws_def console_log_def Let_def)

text \<open>
  A callback that publishes the event again from inside its first call is entered a second
  time before the wrapper has removed itself.
\<close>

lemma once_callback_called_twice_reentrant:
  "invocations 0 (snd (emit reemits_first ''t'' 1 (once ''t'' 0 (emptyHub 0)))) = 2
   \<and> listeners (snd (emit reemits_first ''t'' 1 (once ''t'' 0 (emptyHub 0)))) ''t'' = Some []"
  by (simp add: invocations_def emit_def once_def on_def off_def emptyHub_def try_catch_def
        call_function_def reemits_first_def counts_calls_def console_log_def Let_def)

end
